theory Spec2Isabelle
  imports Main "HOL-Library.AList" "HOL-Library.Sublist" "HOL-Library.Product_Lexorder"
begin

section \<open>Text: Python strings and the helpers of the content processor\<close>

text \<open>
  A Python \<open>str\<close> is a sequence of code points. The model covers the code points
  U+0000 to U+00FF: a \<^typ>\<open>char\<close> is the code point with that number, a \<^typ>\<open>string\<close>
  is the \<open>str\<close>, and \<open>length\<close> is Python's \<open>len\<close>. The three classifications below
  are those of CPython on that range.
\<close>

definition isspace :: "char \<Rightarrow> bool" where
  \<comment> \<open>the white space of \<open>str.strip()\<close>, \<open>str.split()\<close> and the pattern \<open>\s\<close>\<close>
  "isspace c = (of_char c \<in> {9, 10, 11, 12, 13, 28, 29, 30, 31, 32, 133, 160 :: nat})"

definition is_word_char :: "char \<Rightarrow> bool" where
  \<comment> \<open>the pattern \<open>\w\<close>: alphanumeric code points and the underscore\<close>
  "is_word_char c =
     (let n = of_char c :: nat in
        (48 \<le> n \<and> n \<le> 57) \<or> (65 \<le> n \<and> n \<le> 90) \<or> n = 95 \<or> (97 \<le> n \<and> n \<le> 122)
        \<or> n \<in> {170, 178, 179, 181, 185, 186, 188, 189, 190}
        \<or> (192 \<le> n \<and> n \<le> 214) \<or> (216 \<le> n \<and> n \<le> 246) \<or> (248 \<le> n \<and> n \<le> 255))"

definition lower_char :: "char \<Rightarrow> char" where
  "lower_char c =
     (let n = of_char c :: nat in
        if (65 \<le> n \<and> n \<le> 90) \<or> (192 \<le> n \<and> n \<le> 214) \<or> (216 \<le> n \<and> n \<le> 222)
        then char_of (n + 32) else c)"

definition lower :: "string \<Rightarrow> string" where
  \<comment> \<open>\<open>str.lower()\<close>\<close>
  "lower s = map lower_char s"

definition strip :: "string \<Rightarrow> string" where
  \<comment> \<open>\<open>str.strip()\<close>: white space removed at both ends\<close>
  "strip s = rev (dropWhile isspace (rev (dropWhile isspace s)))"

function split_ws :: "string \<Rightarrow> string list" where
  \<comment> \<open>\<open>str.split()\<close> with no argument: the maximal runs of non-space characters\<close>
  "split_ws s =
     (case dropWhile isspace s of
        [] \<Rightarrow> []
      | c # cs \<Rightarrow> takeWhile (\<lambda>x. \<not> isspace x) (c # cs)
                 # split_ws (dropWhile (\<lambda>x. \<not> isspace x) cs))"
  by pat_completeness auto
termination
proof (relation "measure length")
  show "wf (measure length)" by simp
next
  fix s :: string and c cs
  assume "dropWhile isspace s = c # cs"
  then have "Suc (length cs) \<le> length s"
    using length_dropWhile_le [of isspace s] by simp
  moreover have "length (dropWhile (\<lambda>x. \<not> isspace x) cs) \<le> length cs"
    by (rule length_dropWhile_le)
  ultimately show "(dropWhile (\<lambda>x. \<not> isspace x) cs, s) \<in> measure length"
    by simp
qed

function split_runs :: "(char \<Rightarrow> bool) \<Rightarrow> string \<Rightarrow> string \<Rightarrow> string list" where
  \<comment> \<open>\<open>re.split\<close> on the maximal runs of the characters \<open>d\<close>; \<open>cur\<close> is the piece read so far\<close>
  "split_runs d cur [] = [cur]"
| "split_runs d cur (c # cs) =
     (if d c then cur # split_runs d [] (dropWhile d cs)
      else split_runs d (cur @ [c]) cs)"
  by pat_completeness auto
termination
  by (relation "measure (\<lambda>(d, cur, s). length s)")
     (auto simp: length_dropWhile_le le_imp_less_Suc)

definition join :: "string \<Rightarrow> string list \<Rightarrow> string" where
  \<comment> \<open>\<open>sep.join(parts)\<close>\<close>
  "join sep parts = concat (case parts of [] \<Rightarrow> [] | p # ps \<Rightarrow> p # map (\<lambda>q. sep @ q) ps)"

definition digit_char :: "nat \<Rightarrow> char" where
  "digit_char n = char_of (48 + n)"

function str_nat :: "nat \<Rightarrow> string" where
  \<comment> \<open>\<open>str(n)\<close> of a natural number, as an f-string formats it\<close>
  "str_nat n = (if n < 10 then [digit_char n] else str_nat (n div 10) @ [digit_char (n mod 10)])"
  by pat_completeness auto
termination
  by (relation "measure id") auto

subsection \<open>\<open>ContentProcessor.extract_keywords\<close>\<close>

definition stop_words :: "string list" where
  "stop_words =
    [''the'', ''a'', ''an'', ''and'', ''or'', ''but'', ''in'', ''on'', ''at'', ''to'', ''for'',
     ''of'', ''with'', ''by'', ''from'', ''up'', ''about'', ''into'', ''through'', ''during'',
     ''before'', ''after'', ''above'', ''below'', ''between'', ''among'', ''is'', ''are'',
     ''was'', ''were'', ''be'', ''been'', ''being'', ''have'', ''has'', ''had'', ''do'',
     ''does'', ''did'', ''will'', ''would'', ''could'', ''should'', ''may'', ''might'',
     ''must'', ''can'', ''this'', ''that'', ''these'', ''those'', ''i'', ''you'', ''he'',
     ''she'', ''it'', ''we'', ''they'', ''me'', ''him'', ''her'', ''us'', ''them'']"

definition tokens :: "string \<Rightarrow> string list" where
  \<comment> \<open>\<open>re.sub(r'[^\w\s]', ' ', text.lower()).split()\<close>\<close>
  "tokens text =
     split_ws (map (\<lambda>c. if is_word_char c \<or> isspace c then c else CHR '' '') (lower text))"

definition dict_incr :: "('k \<times> nat) list \<Rightarrow> 'k \<Rightarrow> ('k \<times> nat) list" where
  \<comment> \<open>\<open>d[k] = d.get(k, 0) + 1\<close> on a dict, which keeps its keys in insertion order\<close>
  "dict_incr d k = AList.update k (case map_of d k of None \<Rightarrow> 1 | Some n \<Rightarrow> n + 1) d"

definition sorted_by_count_desc :: "('k \<times> nat) list \<Rightarrow> ('k \<times> nat) list" where
  \<comment> \<open>\<open>sorted(d.items(), key=lambda x: x[1], reverse=True)\<close>: stable, largest count first\<close>
  "sorted_by_count_desc items = sort_key (\<lambda>x. - int (snd x)) items"

definition word_freq :: "string list \<Rightarrow> (string \<times> nat) list" where
  "word_freq words =
     fold (\<lambda>word d. if length word > 3 \<and> word \<notin> set stop_words then dict_incr d word else d)
       words []"

definition extract_keywords :: "string \<Rightarrow> nat \<Rightarrow> string list" where
  "extract_keywords text max_keywords =
     (if text = [] then []
      else map fst (take max_keywords (sorted_by_count_desc (word_freq (tokens text)))))"

subsection \<open>\<open>ContentProcessor.generate_summary\<close>\<close>

definition is_sentence_end :: "char \<Rightarrow> bool" where
  "is_sentence_end c = (c = CHR ''.'' \<or> c = CHR ''!'' \<or> c = CHR ''?'')"

definition sentences :: "string \<Rightarrow> string list" where
  \<comment> \<open>\<open>[s.strip() for s in re.split(r'[.!?]+', text) if s.strip()]\<close>\<close>
  "sentences text = filter (\<lambda>s. s \<noteq> []) (map strip (split_runs is_sentence_end [] text))"

definition generate_summary :: "string \<Rightarrow> nat \<Rightarrow> string" where
  "generate_summary text max_sentences =
     (if text = [] then []
      else if length (sentences text) \<le> max_sentences
      then join ''. '' (sentences text) @ ''.''
      else join ''. '' (take max_sentences (sentences text)) @ ''.'')"


subsection \<open>Notions used to state the text properties\<close>

definition first_index :: "'a list \<Rightarrow> 'a \<Rightarrow> nat" where
  \<comment> \<open>the position at which \<open>x\<close> is first seen in \<open>xs\<close> (\<open>length xs\<close> when it never is)\<close>
  "first_index xs x = length (takeWhile (\<lambda>y. y \<noteq> x) xs)"

definition keep_word :: "string \<Rightarrow> bool" where
  \<comment> \<open>the test of the counting loop: \<open>len(word) > 3 and word not in stop_words\<close>\<close>
  "keep_word w = (length w > 3 \<and> w \<notin> set stop_words)"

definition ranks_before :: "'a list \<Rightarrow> 'a \<Rightarrow> 'a \<Rightarrow> bool" where
  \<comment> \<open>\<open>a\<close> is more frequent in the stream \<open>ws\<close> than \<open>b\<close>, or as frequent and first seen earlier\<close>
  "ranks_before ws a b =
     (count_list ws a > count_list ws b
      \<or> (count_list ws a = count_list ws b \<and> first_index ws a < first_index ws b))"

definition clean_sentence :: "string \<Rightarrow> bool" where
  \<comment> \<open>a non-empty trimmed piece that holds none of \<open>.!?\<close>\<close>
  "clean_sentence s =
     (s \<noteq> [] \<and> \<not> isspace (hd s) \<and> \<not> isspace (last s) \<and> (\<forall>c \<in> set s. \<not> is_sentence_end c))"

definition counted :: "('a \<Rightarrow> bool) \<Rightarrow> 'a list \<Rightarrow> ('a \<times> nat) list" where
  \<comment> \<open>the dict a counting loop builds over \<open>ws\<close> when it counts the items that pass \<open>P\<close>\<close>
  "counted P ws = fold (\<lambda>w d. if P w then dict_incr d w else d) ws []"

section \<open>The aggregator: \<open>ExternalAPIService.gather_research_data\<close>\<close>

text \<open>
  An exception is a value: its class and its message, \<open>str(e)\<close>. \<open>PendingRollbackError\<close> is
  what the session of the record store raises at every call once one of its writes has
  failed, until a rollback; the source never rolls back.
\<close>

datatype error =
  ValueError string | AttributeError string | Exception string | PendingRollbackError string

fun str_error :: "error \<Rightarrow> string" where
  "str_error (ValueError m) = m"
| "str_error (AttributeError m) = m"
| "str_error (Exception m) = m"
| "str_error (PendingRollbackError m) = m"

definition session_lost :: "error \<Rightarrow> bool" where
  \<comment> \<open>the exception in flight is the one of a session that refuses every further call\<close>
  "session_lost e = (case e of PendingRollbackError m \<Rightarrow> True | _ \<Rightarrow> False)"

text \<open>
  A candidate item is the dict a provider returns. Every reader of the dict uses
  \<open>.get(key, default)\<close> with an empty default, so a missing key is the empty value of its
  field; the keyword list is empty until the aggregator sets it.
\<close>

record candidate =
  title :: string
  url :: string
  summary :: string
  content :: string
  source :: string
  published_at :: "int option"
  relevance_score :: int
  keyword_list :: "string list"

text \<open>
  The surroundings of one workflow run, which the code reaches through its collaborators:
  \<^item> \<open>search_articles\<close> and \<open>search_stories\<close> are the two providers (the encyclopedia and
    the news service), given the topic and the result cap; \<open>asyncio.gather\<close> with
    \<open>return_exceptions=True\<close> hands back either the list or the exception;
  \<^item> \<open>fault step\<close> is the exception that the \<open>try\<close> block of that stage meets, if any,
    from a collaborator or from the runtime. It strikes after the validation in stage 1,
    at the head of the block in stages 2 and 3 and 5, and in stage 4 after
    \<open>saved_before_fault\<close> articles are saved. A write of the record store that fails
    inside the block loses the session: what the stage then meets, at the first call of
    its \<open>except\<close> block, is the session's \<open>PendingRollbackError\<close>, and the fault is that
    exception. Any other fault leaves the session usable;
  \<^item> \<open>foreign_key_error\<close> is the exception with which the store rejects a log entry of
    a request it does not hold, when it enforces the foreign key of the entry (the
    configured store, PostgreSQL, does; SQLite does not unless told to);
  \<^item> \<open>clock n\<close> is the time in microseconds at the \<open>n\<close>-th reading of the clock.
\<close>

datatype WorkflowStep =
  INPUT_PARSING | DATA_GATHERING | STEP_PROCESSING | RESULT_PERSISTENCE | RETURN_RESULTS

record environment =
  search_articles :: "string \<Rightarrow> nat \<Rightarrow> error + candidate list"
  search_stories :: "string \<Rightarrow> nat \<Rightarrow> error + candidate list"
  fault :: "WorkflowStep \<Rightarrow> error option"
  saved_before_fault :: nat
  foreign_key_error :: "error option"
  clock :: "nat \<Rightarrow> int"

definition or_empty :: "error + candidate list \<Rightarrow> candidate list" where
  \<comment> \<open>\<open>if isinstance(r, Exception): r = []\<close>\<close>
  "or_empty r = (case r of Inl e \<Rightarrow> [] | Inr items \<Rightarrow> items)"

definition all_articles :: "environment \<Rightarrow> string \<Rightarrow> candidate list" where
  \<comment> \<open>the items fetched, in provider-fetch order: the encyclopedia's, then the news service's\<close>
  "all_articles env topic =
     or_empty (search_articles env topic 3) @ or_empty (search_stories env topic 2)"

definition process_article :: "candidate \<Rightarrow> candidate" where
  \<comment> \<open>the body of the enrichment loop\<close>
  "process_article article =
     (let article1 =
            (if summary article = [] \<and> content article \<noteq> []
             then article\<lparr>summary := generate_summary (content article) 3\<rparr>
             else article);
          text_for_keywords = title article1 @ '' '' @ content article1
      in article1\<lparr>keyword_list := extract_keywords text_for_keywords 10\<rparr>)"

definition sort_by_relevance :: "candidate list \<Rightarrow> candidate list" where
  \<comment> \<open>\<open>list.sort(key=lambda x: x.get("relevance_score", 0), reverse=True)\<close>: stable\<close>
  "sort_by_relevance items = sort_key (\<lambda>x. - relevance_score x) items"

definition gather_research_data :: "environment \<Rightarrow> string \<Rightarrow> candidate list" where
  "gather_research_data env topic =
     (let processed_articles = map process_article (all_articles env topic)
      in take 5 (sort_by_relevance processed_articles))"

section \<open>The record store: models and \<open>ResearchService\<close>\<close>

datatype ResearchStatus = PENDING | PROCESSING | COMPLETED | FAILED

text \<open>A JSON payload: the values the workflow stores in \<open>details\<close>.\<close>

datatype json =
  JInt int | JStr string | JBool bool | JStrList "string list" | JStrSet "string set"

type_synonym payload = "(string \<times> json) list"

record result_article =
  ra_id :: nat
  ra_title :: string
  ra_url :: string
  ra_source :: string
  ra_summary :: string
  ra_keywords :: "string list"
  ra_relevance_score :: int

text \<open>
  \<open>list(set(...))\<close> lists the distinct sources in an order Python does not fix; the model
  keeps the set.
\<close>

record final_results =
  res_topic :: string
  res_summary :: string
  res_top_articles :: "result_article list"
  res_keywords :: "string list"
  res_sources :: "string set"
  total_articles_found :: nat
  processing_time_ms :: int
  res_completed_at :: int

record ResearchRequest =
  request_id :: nat
  topic :: string
  status :: ResearchStatus
  task_id :: "string option"
  created_at :: int
  updated_at :: "int option"
  completed_at :: "int option"
  results :: "final_results option"
  error_message :: "string option"

record WorkflowLog =
  log_id :: nat
  research_request_id :: nat
  step :: WorkflowStep
  log_status :: string
  message :: "string option"
  details :: "payload option"
  started_at :: "int option"
  log_completed_at :: "int option"
  duration_ms :: "int option"

record Article =
  article_id :: nat
  article_request_id :: nat
  article_title :: string
  article_url :: string
  article_source :: string
  article_content :: string
  article_summary :: string
  article_keywords :: "string list"
  article_published_at :: "int option"
  extracted_at :: int
  article_relevance_score :: int

text \<open>
  The store holds the three tables, each in insertion order. A time is an integer, the
  microseconds of a \<open>datetime\<close>; an operation that reads the clock takes the reading as
  \<open>now\<close>. A primary key is assigned by the store: one more than the largest key of the
  table. An update or a delete by primary key acts on the rows with that key. The
  operations are those of a usable session, and the times the store returns are taken to
  be naive datetimes like those of \<open>datetime.utcnow()\<close>, so that the two subtract.
\<close>

record store =
  research_requests :: "ResearchRequest list"
  workflow_logs :: "WorkflowLog list"
  articles :: "Article list"

definition empty_store :: store where
  "empty_store = \<lparr>research_requests = [], workflow_logs = [], articles = []\<rparr>"

definition fresh_id :: "nat list \<Rightarrow> nat" where
  "fresh_id ids = Suc (fold max ids 0)"

definition truthy :: "string option \<Rightarrow> bool" where
  \<comment> \<open>\<open>if message:\<close> on an optional string: neither \<open>None\<close> nor empty\<close>
  "truthy s = (case s of None \<Rightarrow> False | Some v \<Rightarrow> v \<noteq> [])"

definition truthy_payload :: "payload option \<Rightarrow> bool" where
  \<comment> \<open>\<open>if details:\<close> on an optional dict: neither \<open>None\<close> nor empty\<close>
  "truthy_payload d = (case d of None \<Rightarrow> False | Some v \<Rightarrow> v \<noteq> [])"

definition create_research_request :: "store \<Rightarrow> int \<Rightarrow> string \<Rightarrow> store \<times> ResearchRequest" where
  "create_research_request db now topic' =
     (let research_request =
            \<lparr>request_id = fresh_id (map request_id (research_requests db)),
             topic = topic', status = PENDING, task_id = None, created_at = now,
             updated_at = None, completed_at = None, results = None, error_message = None\<rparr>
      in (db\<lparr>research_requests := research_requests db @ [research_request]\<rparr>,
          research_request))"

definition get_research_request :: "store \<Rightarrow> nat \<Rightarrow> ResearchRequest option" where
  "get_research_request db rid = find (\<lambda>r. request_id r = rid) (research_requests db)"

definition set_status ::
  "int \<Rightarrow> ResearchStatus \<Rightarrow> final_results option \<Rightarrow> string option \<Rightarrow> ResearchRequest
     \<Rightarrow> ResearchRequest" where
  \<comment> \<open>the assignments of \<open>update_status\<close> to the row it found; a results payload is
      a dict with keys, so \<open>if results:\<close> asks whether one was given\<close>
  "set_status now status' results' error_message' r =
     r\<lparr>status := status',
       results := (case results' of None \<Rightarrow> results r | Some v \<Rightarrow> Some v),
       error_message := (if truthy error_message' then error_message' else error_message r),
       completed_at := (if status' = COMPLETED then Some now else completed_at r),
       updated_at := Some now\<rparr>"

definition update_status ::
  "store \<Rightarrow> int \<Rightarrow> nat \<Rightarrow> ResearchStatus \<Rightarrow> final_results option \<Rightarrow> string option
     \<Rightarrow> store \<times> ResearchRequest option" where
  "update_status db now rid status' results' error_message' =
     (case find (\<lambda>r. request_id r = rid) (research_requests db) of
        None \<Rightarrow> (db, None)
      | Some research_request \<Rightarrow>
          (db\<lparr>research_requests :=
                 map (\<lambda>r. if request_id r = rid
                           then set_status now status' results' error_message' r else r)
                   (research_requests db)\<rparr>,
           Some (set_status now status' results' error_message' research_request)))"

definition get_research_request_detail ::
  "store \<Rightarrow> nat \<Rightarrow> (ResearchRequest \<times> WorkflowLog list \<times> Article list) option" where
  \<comment> \<open>the request with the rows its two relationships load\<close>
  "get_research_request_detail db rid =
     (case find (\<lambda>r. request_id r = rid) (research_requests db) of
        None \<Rightarrow> None
      | Some research_request \<Rightarrow>
          Some (research_request,
                filter (\<lambda>l. research_request_id l = rid) (workflow_logs db),
                filter (\<lambda>a. article_request_id a = rid) (articles db)))"

definition delete_research_request :: "store \<Rightarrow> nat \<Rightarrow> store \<times> bool" where
  \<comment> \<open>both relationships cascade (\<open>cascade="all, delete-orphan"\<close>)\<close>
  "delete_research_request db rid =
     (case find (\<lambda>r. request_id r = rid) (research_requests db) of
        None \<Rightarrow> (db, False)
      | Some research_request \<Rightarrow>
          (\<lparr>research_requests = filter (\<lambda>r. request_id r \<noteq> rid) (research_requests db),
            workflow_logs = filter (\<lambda>l. research_request_id l \<noteq> rid) (workflow_logs db),
            articles = filter (\<lambda>a. article_request_id a \<noteq> rid) (articles db)\<rparr>,
           True))"

definition create_workflow_log ::
  "store \<Rightarrow> int \<Rightarrow> nat \<Rightarrow> WorkflowStep \<Rightarrow> string \<Rightarrow> string option \<Rightarrow> payload option
     \<Rightarrow> store \<times> WorkflowLog" where
  "create_workflow_log db now rid step' status' message' details' =
     (let log =
            \<lparr>log_id = fresh_id (map log_id (workflow_logs db)), research_request_id = rid,
             step = step', log_status = status', message = message', details = details',
             started_at = Some now, log_completed_at = None, duration_ms = None\<rparr>
      in (db\<lparr>workflow_logs := workflow_logs db @ [log]\<rparr>, log))"

text \<open>
  \<open>int((t1 - t0).total_seconds() * 1000)\<close> is computed in floating point:
  \<open>total_seconds()\<close> is the double nearest to the quotient of the microseconds by
  \<open>10**6\<close>, the product with 1000 is rounded to a double again, and \<open>int\<close> cuts the
  fraction off. A double is written \<open>(m, e)\<close> for \<open>m * 2 ^ e\<close>, with a mantissa of 53 bits.
\<close>

definition round_half_even :: "int \<Rightarrow> int \<Rightarrow> int" where
  \<comment> \<open>the integer nearest to \<open>p / q\<close> for \<open>q > 0\<close>, the even one of two that are as near\<close>
  "round_half_even p q =
     (let d = p div q; r = p mod q
      in if 2 * r < q then d else if q < 2 * r then d + 1 else if even d then d else d + 1)"

function bit_length :: "int \<Rightarrow> nat" where
  \<comment> \<open>the number of binary digits of a positive integer\<close>
  "bit_length n = (if n \<le> 0 then 0 else Suc (bit_length (n div 2)))"
  by pat_completeness auto
termination by (relation "measure nat") auto

declare bit_length.simps [simp del]

definition floor_log2 :: "int \<Rightarrow> int \<Rightarrow> int" where
  \<comment> \<open>the largest \<open>d\<close> with \<open>2 ^ d \<le> p / q\<close>, for \<open>p > 0\<close> and \<open>q > 0\<close>\<close>
  "floor_log2 p q =
     (let d = int (bit_length p) - int (bit_length q)
      in if (if 0 \<le> d then q * 2 ^ nat d \<le> p else q \<le> p * 2 ^ nat (- d)) then d else d - 1)"

definition to_double :: "int \<Rightarrow> int \<Rightarrow> int \<times> int" where
  \<comment> \<open>the double nearest to \<open>p / q\<close>, for \<open>p \<ge> 0\<close> and \<open>q > 0\<close>\<close>
  "to_double p q =
     (if p = 0 then (0, 0)
      else let e = floor_log2 p q - 52
           in (if 0 \<le> e then round_half_even p (q * 2 ^ nat e)
               else round_half_even (p * 2 ^ nat (- e)) q, e))"

definition double_times :: "int \<times> int \<Rightarrow> int \<Rightarrow> int \<times> int" where
  \<comment> \<open>the product of a double and an integer, rounded to a double\<close>
  "double_times x k =
     (case x of (m, e) \<Rightarrow> if 0 \<le> e then to_double (m * k * 2 ^ nat e) 1
                         else to_double (m * k) (2 ^ nat (- e)))"

definition double_trunc :: "int \<times> int \<Rightarrow> int" where
  \<comment> \<open>\<open>int(x)\<close> of a double that is not negative\<close>
  "double_trunc x = (case x of (m, e) \<Rightarrow> if 0 \<le> e then m * 2 ^ nat e else m div 2 ^ nat (- e))"

definition elapsed_ms :: "int \<Rightarrow> int \<Rightarrow> int" where
  \<comment> \<open>\<open>int((now - started).total_seconds() * 1000)\<close>; a negative difference is the mirror
      image of the positive one\<close>
  "elapsed_ms started now =
     (let us = now - started
      in sgn us * double_trunc (double_times (to_double \<bar>us\<bar> 1000000) 1000))"

definition set_log ::
  "int \<Rightarrow> string \<Rightarrow> string option \<Rightarrow> payload option \<Rightarrow> WorkflowLog \<Rightarrow> WorkflowLog" where
  \<comment> \<open>the assignments of \<open>update_workflow_log\<close> to the row it found\<close>
  "set_log now status' message' details' log =
     (let log1 = log\<lparr>log_status := status',
                     message := (if truthy message' then message' else message log),
                     details := (if truthy_payload details' then details' else details log)\<rparr>
      in if status' = ''completed''
         then (case started_at log1 of
                 None \<Rightarrow> log1\<lparr>log_completed_at := Some now\<rparr>
               | Some started \<Rightarrow>
                   log1\<lparr>log_completed_at := Some now,
                        duration_ms := Some (elapsed_ms started now)\<rparr>)
         else log1)"

definition update_workflow_log ::
  "store \<Rightarrow> int \<Rightarrow> nat \<Rightarrow> string \<Rightarrow> string option \<Rightarrow> payload option
     \<Rightarrow> store \<times> WorkflowLog option" where
  "update_workflow_log db now lid status' message' details' =
     (case find (\<lambda>l. log_id l = lid) (workflow_logs db) of
        None \<Rightarrow> (db, None)
      | Some log \<Rightarrow>
          (db\<lparr>workflow_logs :=
                 map (\<lambda>l. if log_id l = lid then set_log now status' message' details' l else l)
                   (workflow_logs db)\<rparr>,
           Some (set_log now status' message' details' log)))"

definition create_article :: "store \<Rightarrow> int \<Rightarrow> nat \<Rightarrow> candidate \<Rightarrow> store \<times> Article" where
  \<comment> \<open>called with the fields of one candidate, as \<open>execute_result_persistence\<close> does\<close>
  "create_article db now rid article_data =
     (let article =
            \<lparr>article_id = fresh_id (map article_id (articles db)), article_request_id = rid,
             article_title = title article_data, article_url = url article_data,
             article_source = source article_data, article_content = content article_data,
             article_summary = summary article_data, article_keywords = keyword_list article_data,
             article_published_at = published_at article_data, extracted_at = now,
             article_relevance_score = relevance_score article_data\<rparr>
      in (db\<lparr>articles := articles db @ [article]\<rparr>, article))"

definition get_articles :: "store \<Rightarrow> nat \<Rightarrow> nat option \<Rightarrow> Article list" where
  \<comment> \<open>ordered by relevance, largest first, then by extraction time\<close>
  "get_articles db rid limit =
     (let rows = sort_key (\<lambda>a. (- article_relevance_score a, extracted_at a))
                   (filter (\<lambda>a. article_request_id a = rid) (articles db))
      in case limit of
           None \<Rightarrow> rows
         | Some n \<Rightarrow> if n = 0 then rows else take n rows)"

section \<open>The workflow: \<open>start_research_workflow\<close> and its five stages\<close>

text \<open>
  A stage returns the store it leaves and either its result or the exception it lets
  through (\<open>Inl\<close>). The result dicts of the stages are records. The \<open>except\<close> block of a
  stage updates the log entry to \<open>failed\<close> and raises the exception again; when the
  session is lost that update raises in its turn, so the entry stays as it was created
  and the session's exception leaves the stage.
\<close>

record parsed_input =
  original_topic :: string
  cleaned_topic :: string
  topic_length :: nat
  validation_passed :: bool

record processed_data =
  proc_top_articles :: "candidate list"
  proc_keywords :: "string list"
  proc_summary :: string
  proc_sources :: "string set"
  total_articles_processed :: nat
  top_articles_count :: nat

record persisted_data =
  articles_saved :: nat
  pers_keywords :: "string list"
  pers_summary :: string
  pers_sources :: "string set"
  pers_total_articles_found :: nat

definition validate_topic :: "environment \<Rightarrow> string \<Rightarrow> error + parsed_input" where
  \<comment> \<open>the \<open>try\<close> block of stage 1, up to its result\<close>
  "validate_topic env topic' =
     (if topic' = [] \<or> length (strip topic') < 3
      then Inl (ValueError ''Topic must be at least 3 characters long'')
      else if length topic' > 500
      then Inl (ValueError ''Topic must be less than 500 characters'')
      else (case fault env INPUT_PARSING of
              Some e \<Rightarrow> Inl e
            | None \<Rightarrow>
                Inr \<lparr>original_topic = topic', cleaned_topic = strip topic',
                     topic_length = length (strip topic'), validation_passed = True\<rparr>))"

definition execute_input_parsing ::
  "environment \<Rightarrow> store \<Rightarrow> nat \<Rightarrow> string \<Rightarrow> store \<times> (error + parsed_input)" where
  "execute_input_parsing env db rid topic' =
     (let (db1, log) = create_workflow_log db (clock env 1) rid INPUT_PARSING ''started''
                         (Some ''Validating and parsing input topic'') None
      in case validate_topic env topic' of
           Inr result \<Rightarrow>
             (fst (update_workflow_log db1 (clock env 2) (log_id log) ''completed''
                     (Some ''Input validation completed successfully'')
                     (Some [(''original_topic'', JStr (original_topic result)),
                            (''cleaned_topic'', JStr (cleaned_topic result)),
                            (''topic_length'', JInt (int (topic_length result))),
                            (''validation_passed'', JBool (validation_passed result))])),
              Inr result)
         | Inl e \<Rightarrow>
             (if session_lost e then (db1, Inl e)
              else (fst (update_workflow_log db1 (clock env 2) (log_id log) ''failed''
                           (Some (''Input validation failed: '' @ str_error e)) None),
                    Inl e)))"

definition execute_data_gathering ::
  "environment \<Rightarrow> store \<Rightarrow> nat \<Rightarrow> string \<Rightarrow> store \<times> (error + candidate list)" where
  "execute_data_gathering env db rid topic' =
     (let (db1, log) = create_workflow_log db (clock env 3) rid DATA_GATHERING ''started''
                         (Some ''Fetching articles from external APIs'') None
      in case (case fault env DATA_GATHERING of
                 Some e \<Rightarrow> Inl e
               | None \<Rightarrow> Inr (gather_research_data env topic')) of
           Inr articles' \<Rightarrow>
             (fst (update_workflow_log db1 (clock env 4) (log_id log) ''completed''
                     (Some (''Successfully gathered '' @ str_nat (length articles')
                            @ '' articles''))
                     (Some [(''articles_count'', JInt (int (length articles'))),
                            (''sources'', JStrSet (set (map source articles')))])),
              Inr articles')
         | Inl e \<Rightarrow>
             (if session_lost e then (db1, Inl e)
              else (fst (update_workflow_log db1 (clock env 4) (log_id log) ''failed''
                           (Some (''Data gathering failed: '' @ str_error e)) None),
                    Inl e)))"

definition process_articles :: "candidate list \<Rightarrow> processed_data" where
  \<comment> \<open>the \<open>try\<close> block of stage 3, up to its result\<close>
  "process_articles articles' =
     (let top_articles = take 5 articles';
          all_keywords = concat (map keyword_list top_articles);
          keyword_freq = fold (\<lambda>keyword d. dict_incr d keyword) all_keywords [];
          top_keywords = map fst (take 10 (sorted_by_count_desc keyword_freq));
          all_summaries = filter (\<lambda>s. s \<noteq> []) (map summary top_articles);
          overall_summary = take 1000 (join '' '' all_summaries);
          sources = set (map source top_articles)
      in \<lparr>proc_top_articles = top_articles, proc_keywords = top_keywords,
          proc_summary = overall_summary, proc_sources = sources,
          total_articles_processed = length articles',
          top_articles_count = length top_articles\<rparr>)"

definition execute_processing ::
  "environment \<Rightarrow> store \<Rightarrow> nat \<Rightarrow> candidate list \<Rightarrow> store \<times> (error + processed_data)" where
  "execute_processing env db rid articles' =
     (let (db1, log) = create_workflow_log db (clock env 5) rid STEP_PROCESSING ''started''
                         (Some ''Processing articles and extracting insights'') None
      in case (case fault env STEP_PROCESSING of
                 Some e \<Rightarrow> Inl e
               | None \<Rightarrow> Inr (process_articles articles')) of
           Inr result \<Rightarrow>
             (fst (update_workflow_log db1 (clock env 6) (log_id log) ''completed''
                     (Some (''Processing completed: '' @ str_nat (top_articles_count result)
                            @ '' articles processed''))
                     (Some [(''keywords_extracted'', JInt (int (length (proc_keywords result)))),
                            (''summary_length'', JInt (int (length (proc_summary result)))),
                            (''sources'', JStrSet (proc_sources result))])),
              Inr result)
         | Inl e \<Rightarrow>
             (if session_lost e then (db1, Inl e)
              else (fst (update_workflow_log db1 (clock env 6) (log_id log) ''failed''
                           (Some (''Processing failed: '' @ str_error e)) None),
                    Inl e)))"

fun save_articles :: "store \<Rightarrow> int \<Rightarrow> nat \<Rightarrow> candidate list \<Rightarrow> store \<times> Article list" where
  \<comment> \<open>the loop of stage 4 over \<open>top_articles\<close>\<close>
  "save_articles db now rid [] = (db, [])"
| "save_articles db now rid (article_data # rest) =
     (let (db1, article) = create_article db now rid article_data;
          (db2, saved) = save_articles db1 now rid rest
      in (db2, article # saved))"

definition execute_result_persistence ::
  "environment \<Rightarrow> store \<Rightarrow> nat \<Rightarrow> processed_data \<Rightarrow> store \<times> (error + persisted_data)" where
  "execute_result_persistence env db rid processed =
     (let (db1, log) = create_workflow_log db (clock env 7) rid RESULT_PERSISTENCE ''started''
                         (Some ''Saving processed results to database'') None
      in case fault env RESULT_PERSISTENCE of
           None \<Rightarrow>
             (let (db2, saved_articles) =
                    save_articles db1 (clock env 8) rid (proc_top_articles processed);
                  result = \<lparr>articles_saved = length saved_articles,
                            pers_keywords = proc_keywords processed,
                            pers_summary = proc_summary processed,
                            pers_sources = proc_sources processed,
                            pers_total_articles_found = total_articles_processed processed\<rparr>
              in (fst (update_workflow_log db2 (clock env 9) (log_id log) ''completed''
                         (Some (''Results persisted: '' @ str_nat (length saved_articles)
                                @ '' articles saved''))
                         (Some [(''articles_saved'', JInt (int (articles_saved result))),
                                (''keywords'', JStrList (pers_keywords result)),
                                (''summary'', JStr (pers_summary result)),
                                (''sources'', JStrSet (pers_sources result)),
                                (''total_articles_found'',
                                 JInt (int (pers_total_articles_found result)))])),
                  Inr result))
         | Some e \<Rightarrow>
             (let (db2, saved_articles) =
                    save_articles db1 (clock env 8) rid
                      (take (saved_before_fault env) (proc_top_articles processed))
              in if session_lost e then (db2, Inl e)
                 else (fst (update_workflow_log db2 (clock env 9) (log_id log) ''failed''
                              (Some (''Result persistence failed: '' @ str_error e)) None),
                       Inl e)))"

definition result_article_of :: "Article \<Rightarrow> result_article" where
  "result_article_of article =
     \<lparr>ra_id = article_id article, ra_title = article_title article,
      ra_url = article_url article, ra_source = article_source article,
      ra_summary = article_summary article, ra_keywords = article_keywords article,
      ra_relevance_score = article_relevance_score article\<rparr>"

definition prepare_results ::
  "environment \<Rightarrow> store \<Rightarrow> nat \<Rightarrow> persisted_data \<Rightarrow> int
     \<Rightarrow> error + (final_results \<times> Article list)" where
  \<comment> \<open>the \<open>try\<close> block of stage 5, up to its result; a request that is gone makes
      \<open>research_request.topic\<close> raise\<close>
  "prepare_results env db rid persisted workflow_start =
     (case fault env RETURN_RESULTS of
        Some e \<Rightarrow> Inl e
      | None \<Rightarrow>
          (case get_research_request_detail db rid of
             None \<Rightarrow>
               Inl (AttributeError (CHR 0x27 # ''NoneType'' @ CHR 0x27
                      # '' object has no attribute '' @ CHR 0x27 # ''topic'' @ [CHR 0x27]))
           | Some (research_request, logs, arts) \<Rightarrow>
               (let articles' = get_articles db rid (Some 5)
                in Inr (\<lparr>res_topic = topic research_request,
                          res_summary = pers_summary persisted,
                          res_top_articles = map result_article_of articles',
                          res_keywords = pers_keywords persisted,
                          res_sources = pers_sources persisted,
                          total_articles_found = pers_total_articles_found persisted,
                          processing_time_ms = elapsed_ms workflow_start (clock env 11),
                          res_completed_at = clock env 12\<rparr>,
                        articles'))))"

definition execute_return_results ::
  "environment \<Rightarrow> store \<Rightarrow> nat \<Rightarrow> persisted_data \<Rightarrow> int \<Rightarrow> store \<times> (error + final_results)" where
  "execute_return_results env db rid persisted workflow_start =
     (let (db1, log) = create_workflow_log db (clock env 10) rid RETURN_RESULTS ''started''
                         (Some ''Preparing final structured results'') None
      in case prepare_results env db1 rid persisted workflow_start of
           Inr (final, articles') \<Rightarrow>
             (fst (update_workflow_log db1 (clock env 13) (log_id log) ''completed''
                     (Some ''Research workflow completed successfully'')
                     (Some [(''processing_time_ms'', JInt (processing_time_ms final)),
                            (''articles_returned'', JInt (int (length articles'))),
                            (''keywords_count'',
                             JInt (int (length (pers_keywords persisted))))])),
              Inr final)
         | Inl e \<Rightarrow>
             (if session_lost e then (db1, Inl e)
              else (fst (update_workflow_log db1 (clock env 13) (log_id log) ''failed''
                           (Some (''Return results failed: '' @ str_error e)) None),
                    Inl e)))"

definition workflow_steps ::
  "environment \<Rightarrow> store \<Rightarrow> nat \<Rightarrow> string \<Rightarrow> int \<Rightarrow> store \<times> (error + final_results)" where
  \<comment> \<open>the five calls of the \<open>try\<close> block: the first exception ends the sequence\<close>
  "workflow_steps env db rid topic' workflow_start =
     (case execute_input_parsing env db rid topic' of
        (db1, Inl e) \<Rightarrow> (db1, Inl e)
      | (db1, Inr step1_result) \<Rightarrow>
     (case execute_data_gathering env db1 rid topic' of
        (db2, Inl e) \<Rightarrow> (db2, Inl e)
      | (db2, Inr step2_result) \<Rightarrow>
     (case execute_processing env db2 rid step2_result of
        (db3, Inl e) \<Rightarrow> (db3, Inl e)
      | (db3, Inr step3_result) \<Rightarrow>
     (case execute_result_persistence env db3 rid step3_result of
        (db4, Inl e) \<Rightarrow> (db4, Inl e)
      | (db4, Inr step4_result) \<Rightarrow>
          execute_return_results env db4 rid step4_result workflow_start))))"

definition workflow_failed ::
  "environment \<Rightarrow> store \<Rightarrow> nat \<Rightarrow> error \<Rightarrow> store \<times> (error + final_results)" where
  \<comment> \<open>the \<open>except\<close> block: log the failure, mark the request failed, raise again. On a
      lost session the first write of the block raises the session's exception and
      nothing is written; so does the insert of the entry for a request that the store
      does not hold, when the store enforces the foreign key\<close>
  "workflow_failed env db rid e =
     (if session_lost e then (db, Inl e)
      else case (case get_research_request db rid of
                   None \<Rightarrow> foreign_key_error env | Some r \<Rightarrow> None) of
             Some rejected \<Rightarrow> (db, Inl rejected)
           | None \<Rightarrow>
               (let (db1, log) = create_workflow_log db (clock env 15) rid RETURN_RESULTS
                                   ''failed'' (Some (''Workflow failed: '' @ str_error e)) None;
                    db2 = fst (update_status db1 (clock env 16) rid FAILED None
                                 (Some (str_error e)))
                in (db2, Inl e)))"

definition start_research_workflow ::
  "environment \<Rightarrow> store \<Rightarrow> nat \<Rightarrow> store \<times> (error + final_results)" where
  "start_research_workflow env db rid =
     (case get_research_request db rid of
        None \<Rightarrow>
          workflow_failed env db rid
            (Exception (''Research request '' @ str_nat rid @ '' not found''))
      | Some research_request \<Rightarrow>
          (let db0 = fst (update_status db (clock env 0) rid PROCESSING None None);
               workflow_start = clock env 0
           in case workflow_steps env db0 rid (topic research_request) workflow_start of
                (db5, Inl e) \<Rightarrow> workflow_failed env db5 rid e
              | (db5, Inr final) \<Rightarrow>
                  (fst (update_status db5 (clock env 14) rid COMPLETED (Some final) None),
                   Inr final)))"

subsection \<open>Notions used to state the workflow properties\<close>

definition job_status :: "store \<Rightarrow> nat \<Rightarrow> ResearchStatus option" where
  "job_status db rid = map_option status (get_research_request db rid)"

definition quiet :: environment where
  \<comment> \<open>surroundings in which both providers find nothing and no collaborator fails\<close>
  "quiet = \<lparr>search_articles = (\<lambda>t n. Inr []), search_stories = (\<lambda>t n. Inr []),
            fault = (\<lambda>s. None), saved_before_fault = 0, foreign_key_error = None,
            clock = (\<lambda>n. 1000 * int n)\<rparr>"

definition one_request :: "string \<Rightarrow> ResearchStatus \<Rightarrow> store" where
  \<comment> \<open>a store that holds one request, with key 1\<close>
  "one_request topic' status' =
     \<lparr>research_requests =
        [\<lparr>request_id = 1, topic = topic', status = status', task_id = None, created_at = 0,
          updated_at = None, completed_at = None, results = None, error_message = None\<rparr>],
      workflow_logs = [], articles = []\<rparr>"

definition item :: "string \<Rightarrow> string \<Rightarrow> string \<Rightarrow> int \<Rightarrow> candidate" where
  \<comment> \<open>a candidate with this title, source, summary and score, and nothing else\<close>
  "item title' source' summary' score =
     \<lparr>title = title', url = [], summary = summary', content = [], source = source',
      published_at = None, relevance_score = score, keyword_list = []\<rparr>"

definition two_providers :: environment where
  \<comment> \<open>surroundings in which each provider returns three items\<close>
  "two_providers =
     \<lparr>search_articles =
        (\<lambda>t n. Inr [item ''W1'' ''wikipedia'' ''Kept.'' 80, item ''W2'' ''wikipedia'' ''Kept.'' 80,
                     item ''W3'' ''wikipedia'' ''Kept.'' 80]),
      search_stories =
        (\<lambda>t n. Inr [item ''H1'' ''hackernews'' ''Kept.'' 100, item ''H2'' ''hackernews'' ''Kept.'' 80,
                     item ''H3'' ''hackernews'' ''Kept.'' 7]),
      fault = (\<lambda>s. None), saved_before_fault = 0, foreign_key_error = None,
      clock = (\<lambda>n. 1000 * int n)\<rparr>"

definition finished_store :: store where
  \<comment> \<open>the store after one run of the workflow that finds five articles\<close>
  "finished_store =
     fst (start_research_workflow two_providers (one_request ''Quantum Computing'' PENDING) 1)"

definition started_log :: WorkflowLog where
  "started_log =
     \<lparr>log_id = 1, research_request_id = 1, step = INPUT_PARSING, log_status = ''started'',
      message = Some ''Validating and parsing input topic'', details = None,
      started_at = Some 5000, log_completed_at = None, duration_ms = None\<rparr>"

definition one_log :: store where
  \<comment> \<open>a store that holds one log entry, with key 1\<close>
  "one_log = \<lparr>research_requests = [], workflow_logs = [started_log], articles = []\<rparr>"

definition stage_order :: "WorkflowStep list" where
  "stage_order =
     [INPUT_PARSING, DATA_GATHERING, STEP_PROCESSING, RESULT_PERSISTENCE, RETURN_RESULTS]"

definition stage_trace :: "nat \<Rightarrow> bool \<Rightarrow> (WorkflowStep \<times> string) list" where
  \<comment> \<open>the log of a run that reached stage \<open>k\<close>: the stages before it completed, and stage
      \<open>k\<close> completed (\<open>ok\<close>) or failed\<close>
  "stage_trace k ok =
     zip (take k stage_order)
         (replicate (k - 1) ''completed'' @ [if ok then ''completed'' else ''failed''])"

definition new_logs :: "store \<Rightarrow> store \<Rightarrow> WorkflowLog list" where
  \<comment> \<open>the log entries of \<open>db'\<close> that were appended to those of \<open>db\<close>\<close>
  "new_logs db db' = drop (length (workflow_logs db)) (workflow_logs db')"

definition log_trace :: "WorkflowLog list \<Rightarrow> (WorkflowStep \<times> string) list" where
  "log_trace entries = map (\<lambda>l. (step l, log_status l)) entries"

definition extends_logs :: "store \<Rightarrow> store \<Rightarrow> WorkflowLog list \<Rightarrow> bool" where
  \<comment> \<open>\<open>db'\<close> is \<open>db\<close> with the log entries \<open>es\<close> appended: no request changed, no entry changed\<close>
  "extends_logs db db' es =
     (research_requests db' = research_requests db \<and> workflow_logs db' = workflow_logs db @ es)"

definition silent_fault :: environment where
  \<comment> \<open>surroundings in which stage 2 meets an exception that carries no message\<close>
  "silent_fault = quiet\<lparr>fault := (\<lambda>s. if s = DATA_GATHERING then Some (Exception []) else None)\<rparr>"

definition stage4_raises :: environment where
  \<comment> \<open>surroundings in which stage 4 meets an exception, with the session still usable,
      after it saved two articles\<close>
  "stage4_raises =
     two_providers\<lparr>fault := (\<lambda>s. if s = RESULT_PERSISTENCE
                                   then Some (Exception ''time limit exceeded'') else None),
                    saved_before_fault := 2\<rparr>"

definition stage5_raises :: environment where
  \<comment> \<open>surroundings in which stage 5 meets an exception, with the session still usable\<close>
  "stage5_raises =
     two_providers\<lparr>fault := (\<lambda>s. if s = RETURN_RESULTS
                                   then Some (Exception ''time limit exceeded'') else None)\<rparr>"

definition write_fails :: environment where
  \<comment> \<open>surroundings in which a write of the record store fails in stage 4, after two
      articles are saved, and the session is lost\<close>
  "write_fails =
     two_providers\<lparr>fault := (\<lambda>s. if s = RESULT_PERSISTENCE
                                   then Some (PendingRollbackError ''rolled back'') else None),
                    saved_before_fault := 2\<rparr>"

definition stalled_trace :: "nat \<Rightarrow> (WorkflowStep \<times> string) list" where
  \<comment> \<open>the log of a run whose session was lost in stage \<open>k\<close>: the stages before it
      completed, the entry of stage \<open>k\<close> as it was created\<close>
  "stalled_trace k = zip (take k stage_order) (replicate (k - 1) ''completed'' @ [''started''])"

definition padded_topic :: string where
  \<comment> \<open>three letters followed by 498 spaces: 501 characters, 3 after trimming\<close>
  "padded_topic = ''abc'' @ replicate 498 (CHR '' '')"

definition tagged :: "candidate \<Rightarrow> string list \<Rightarrow> candidate" where
  \<comment> \<open>the candidate with this keyword list\<close>
  "tagged c ks = c\<lparr>keyword_list := ks\<rparr>"

section \<open>Properties\<close>

subsection \<open>The keyword extractor\<close>

lemma first_index_less: "x \<in> set xs \<Longrightarrow> first_index xs x < length xs"
  unfolding first_index_def by (induction xs) auto

lemma first_index_snoc_old: "x \<in> set xs \<Longrightarrow> first_index (xs @ [y]) x = first_index xs x"
  unfolding first_index_def by (induction xs) auto

lemma first_index_snoc_new: "y \<notin> set xs \<Longrightarrow> first_index (xs @ [y]) y = length xs"
  unfolding first_index_def by (induction xs) auto

lemma counted_snoc:
  "counted P (ws @ [w]) = (if P w then dict_incr (counted P ws) w else counted P ws)"
  by (simp add: counted_def)

lemma map_of_dict_incr:
  "map_of (dict_incr d k) = (map_of d)(k \<mapsto> (case map_of d k of None \<Rightarrow> 1 | Some n \<Rightarrow> n + 1))"
  by (simp add: dict_incr_def update_conv')

lemma keys_dict_incr:
  "map fst (dict_incr d k) = (if k \<in> fst ` set d then map fst d else map fst d @ [k])"
  by (simp add: dict_incr_def update_keys)

lemma counted_lookup:
  "map_of (counted P ws) w = (if w \<in> set ws \<and> P w then Some (count_list ws w) else None)"
proof (induction ws arbitrary: w rule: rev_induct)
  case Nil
  show ?case by (simp add: counted_def)
next
  case (snoc x ws)
  show ?case
    by (simp add: counted_snoc map_of_dict_incr snoc.IH)
qed

lemma counted_keys: "fst ` set (counted P ws) = {w \<in> set ws. P w}"
proof -
  have "fst ` set (counted P ws) = dom (map_of (counted P ws))"
    by (simp add: dom_map_of_conv_image_fst)
  also have "\<dots> = {w \<in> set ws. P w}"
    by (auto simp: counted_lookup dom_def)
  finally show ?thesis .
qed

lemma counted_distinct: "distinct (map fst (counted P ws))"
proof (induction ws rule: rev_induct)
  case Nil
  show ?case by (simp add: counted_def)
next
  case (snoc x ws)
  then show ?case
    by (simp add: counted_snoc dict_incr_def distinct_update)
qed

lemma counted_first_seen:
  "sorted_wrt (\<lambda>a b. first_index ws a < first_index ws b) (map fst (counted P ws))"
proof (induction ws rule: rev_induct)
  case Nil
  show ?case by (simp add: counted_def)
next
  case (snoc x ws)
  have keys: "set (map fst (counted P ws)) \<subseteq> set ws"
    using counted_keys [of P ws] by auto
  have old: "sorted_wrt (\<lambda>a b. first_index (ws @ [x]) a < first_index (ws @ [x]) b)
               (map fst (counted P ws))"
  proof (rule sorted_wrt_mono_rel [OF _ snoc.IH])
    fix a b
    assume "a \<in> set (map fst (counted P ws))" "b \<in> set (map fst (counted P ws))"
      and "first_index ws a < first_index ws b"
    then show "first_index (ws @ [x]) a < first_index (ws @ [x]) b"
      using keys by (simp add: first_index_snoc_old subsetD)
  qed
  show ?case
  proof (cases "P x \<and> x \<notin> fst ` set (counted P ws)")
    case False
    then show ?thesis using old by (auto simp: counted_snoc keys_dict_incr)
  next
    case True
    then have new: "x \<notin> set ws" by (auto simp: counted_keys)
    have "\<forall>a \<in> set (map fst (counted P ws)).
            first_index (ws @ [x]) a < first_index (ws @ [x]) x"
      using keys new by (auto simp: first_index_snoc_old first_index_snoc_new first_index_less)
    with True old show ?thesis
      by (simp add: counted_snoc keys_dict_incr sorted_wrt_append)
  qed
qed

lemma insort_key_stable_order:
  assumes "\<forall>y \<in> set ys. P x y"
    and "sorted_wrt (\<lambda>a b. f a < f b \<or> (f a = f b \<and> P a b)) ys"
  shows "sorted_wrt (\<lambda>a b. f a < f b \<or> (f a = f b \<and> P a b)) (insort_key f x ys)"
  using assms
proof (induction ys)
  case Nil
  show ?case by simp
next
  case (Cons y ys)
  show ?case
  proof (cases "f x \<le> f y")
    case True
    have "\<forall>z \<in> set ys. f y \<le> f z" using Cons.prems(2) by auto
    with True Cons.prems show ?thesis by (auto simp: le_less)
  next
    case False
    with Cons show ?thesis by (auto simp: set_insort_key)
  qed
qed

lemma sort_key_stable_order:
  "sorted_wrt P xs \<Longrightarrow> sorted_wrt (\<lambda>a b. f a < f b \<or> (f a = f b \<and> P a b)) (sort_key f xs)"
proof (induction xs)
  case Nil
  show ?case by simp
next
  case (Cons x xs)
  then show ?case by (simp add: insort_key_stable_order)
qed


lemma counted_count: "(w, n) \<in> set (counted P ws) \<Longrightarrow> n = count_list ws w"
proof -
  assume "(w, n) \<in> set (counted P ws)"
  then have "map_of (counted P ws) w = Some n"
    using counted_distinct [of P ws] by simp
  then show ?thesis
    by (simp add: counted_lookup split: if_splits)
qed

lemma sorted_counted_ranked:
  "sorted_wrt (\<lambda>x y. ranks_before ws (fst x) (fst y)) (sorted_by_count_desc (counted P ws))"
proof -
  let ?Q = "\<lambda>x y :: 'a \<times> nat. first_index ws (fst x) < first_index ws (fst y)"
  let ?f = "\<lambda>x :: 'a \<times> nat. - int (snd x)"
  have "sorted_wrt ?Q (counted P ws)"
    using counted_first_seen [of ws P] by (simp add: sorted_wrt_map)
  then have "sorted_wrt (\<lambda>a b. ?f a < ?f b \<or> (?f a = ?f b \<and> ?Q a b))
               (sort_key ?f (counted P ws))"
    by (rule sort_key_stable_order)
  then show ?thesis
    unfolding sorted_by_count_desc_def
  proof (rule sorted_wrt_mono_rel [rotated])
    fix x y
    assume "x \<in> set (sort_key ?f (counted P ws))" "y \<in> set (sort_key ?f (counted P ws))"
    then have "snd x = count_list ws (fst x)" "snd y = count_list ws (fst y)"
      using counted_count [of "fst x" "snd x" P ws] counted_count [of "fst y" "snd y" P ws]
      by simp_all
    moreover assume "?f x < ?f y \<or> (?f x = ?f y \<and> ?Q x y)"
    ultimately show "ranks_before ws (fst x) (fst y)"
      by (auto simp: ranks_before_def)
  qed
qed

lemma set_sorted_by_count_desc: "set (sorted_by_count_desc d) = set d"
  by (simp add: sorted_by_count_desc_def)

lemma length_sorted_by_count_desc: "length (sorted_by_count_desc d) = length d"
  by (simp add: sorted_by_count_desc_def)

lemma top_counted_subset:
  "set (map fst (take n (sorted_by_count_desc (counted P ws)))) \<subseteq> {w \<in> set ws. P w}"
proof -
  have "set (map fst (take n (sorted_by_count_desc (counted P ws)))) \<subseteq> fst ` set (counted P ws)"
    using set_take_subset [of n "sorted_by_count_desc (counted P ws)"]
    by (auto simp: set_sorted_by_count_desc)
  then show ?thesis by (simp add: counted_keys)
qed

lemma top_counted_distinct:
  "distinct (map fst (take n (sorted_by_count_desc (counted P ws))))"
proof -
  have "distinct (map fst (sorted_by_count_desc (counted P ws)))"
    unfolding sorted_by_count_desc_def
    using counted_distinct [of P ws]
    by (simp add: distinct_map)
  then have "distinct (take n (map fst (sorted_by_count_desc (counted P ws))))"
    by (rule distinct_take)
  then show ?thesis by (simp add: take_map)
qed

lemma top_counted_length:
  "length (map fst (take n (sorted_by_count_desc (counted P ws))))
     = min n (card {w \<in> set ws. P w})"
proof -
  have "length (counted P ws) = card (fst ` set (counted P ws))"
    using distinct_card [OF counted_distinct [of P ws]] by simp
  then show ?thesis
    by (simp add: length_sorted_by_count_desc counted_keys min.commute)
qed

lemma top_counted_ranked:
  "sorted_wrt (ranks_before ws) (map fst (take n (sorted_by_count_desc (counted P ws))))"
  by (simp add: sorted_wrt_map sorted_wrt_take sorted_counted_ranked)

lemma top_counted_left_out:
  assumes "w \<in> set ws" "P w" "w \<notin> set (map fst (take n (sorted_by_count_desc (counted P ws))))"
    and "k \<in> set (map fst (take n (sorted_by_count_desc (counted P ws))))"
  shows "ranks_before ws k w"
proof -
  let ?s = "sorted_by_count_desc (counted P ws)"
  have "sorted_wrt (\<lambda>x y. ranks_before ws (fst x) (fst y)) (take n ?s @ drop n ?s)"
    using sorted_counted_ranked [of ws P] by simp
  then have cross: "\<forall>x \<in> set (take n ?s). \<forall>y \<in> set (drop n ?s).
      ranks_before ws (fst x) (fst y)"
    unfolding sorted_wrt_append by blast
  have "w \<in> fst ` set ?s"
    using assms(1,2) by (simp add: set_sorted_by_count_desc counted_keys)
  then have "w \<in> fst ` (set (take n ?s) \<union> set (drop n ?s))"
    by (simp flip: set_append)
  moreover have "w \<notin> fst ` set (take n ?s)"
    using assms(3) by simp
  ultimately have "w \<in> fst ` set (drop n ?s)" by blast
  moreover have "k \<in> fst ` set (take n ?s)"
    using assms(4) by simp
  ultimately show ?thesis using cross by auto
qed

lemma tokens_Nil: "tokens [] = []"
  by (simp add: tokens_def lower_def)

lemma word_freq_counted: "word_freq ws = counted keep_word ws"
  by (simp add: word_freq_def counted_def keep_word_def)

lemma extract_keywords_eq:
  "extract_keywords t n = map fst (take n (sorted_by_count_desc (counted keep_word (tokens t))))"
  by (simp add: extract_keywords_def tokens_Nil word_freq_counted)
     (simp add: counted_def sorted_by_count_desc_def)

lemma extract_keywords_subset:
  "set (extract_keywords t n) \<subseteq> {w \<in> set (tokens t). keep_word w}"
  unfolding extract_keywords_eq by (rule top_counted_subset)

lemma extract_keywords_length:
  "length (extract_keywords t n) = min n (card {w \<in> set (tokens t). keep_word w})"
  unfolding extract_keywords_eq by (rule top_counted_length)

lemma extract_keywords_ranked:
  "sorted_wrt (ranks_before (tokens t)) (extract_keywords t n)"
  unfolding extract_keywords_eq by (rule top_counted_ranked)

lemma extract_keywords_top:
  assumes "w \<in> set (tokens t)" "keep_word w" "w \<notin> set (extract_keywords t n)"
    and "k \<in> set (extract_keywords t n)"
  shows "ranks_before (tokens t) k w"
  using assms unfolding extract_keywords_eq by (rule top_counted_left_out)

text \<open>
  C6. \<open>extract_keywords\<close> is a function of its text (equal texts give equal keyword
  lists). With the default cap of 10: the result has at most 10 keywords; each is a token
  of the lower-cased, punctuation-stripped text, longer than 3 characters and not a stop
  word; the keywords are in order of descending frequency in the token stream, ties in
  the order in which the tokens are first seen; and the result is the head of that
  ranking: it has 10 keywords or every kept token, and a kept token left out ranks after
  every keyword returned.
\<close>

theorem extract_keywords_contract:
  "(text1 = text2 \<longrightarrow> extract_keywords text1 10 = extract_keywords text2 10)
   \<and> length (extract_keywords text 10) \<le> 10
   \<and> (\<forall>k \<in> set (extract_keywords text 10).
         3 < length k \<and> k \<notin> set stop_words \<and> k \<in> set (tokens text))
   \<and> sorted_wrt (ranks_before (tokens text)) (extract_keywords text 10)
   \<and> length (extract_keywords text 10) = min 10 (card {w \<in> set (tokens text). keep_word w})
   \<and> (\<forall>w \<in> set (tokens text). \<forall>k \<in> set (extract_keywords text 10).
         keep_word w \<and> w \<notin> set (extract_keywords text 10) \<longrightarrow> ranks_before (tokens text) k w)"
proof -
  have "\<forall>k \<in> set (extract_keywords text 10).
          3 < length k \<and> k \<notin> set stop_words \<and> k \<in> set (tokens text)"
    using extract_keywords_subset [of "text" 10] by (auto simp: keep_word_def)
  moreover have "length (extract_keywords text 10) \<le> 10"
    by (simp add: extract_keywords_length)
  moreover have "\<forall>w \<in> set (tokens text). \<forall>k \<in> set (extract_keywords text 10).
         keep_word w \<and> w \<notin> set (extract_keywords text 10) \<longrightarrow> ranks_before (tokens text) k w"
    using extract_keywords_top by blast
  ultimately show ?thesis
    using extract_keywords_ranked [of "text" 10] extract_keywords_length [of "text" 10] by blast
qed

theorem extract_keywords_contract_witness:
  "extract_keywords ''Data beats data; models need DATA, models too'' 10
     = [''data'', ''models'', ''beats'', ''need'']
   \<and> sorted_wrt (ranks_before (tokens ''Data beats data; models need DATA, models too''))
        (extract_keywords ''Data beats data; models need DATA, models too'' 10)
   \<and> list_all (\<lambda>k. 3 < length k \<and> k \<notin> set stop_words)
        (extract_keywords ''Data beats data; models need DATA, models too'' 10)
   \<and> extract_keywords
        ''Data code test file word list tree node edge path loop heap: DATA'' 10
       = [''data'', ''code'', ''test'', ''file'', ''word'', ''list'', ''tree'', ''node'',
          ''edge'', ''path'']
   \<and> keep_word ''heap''
   \<and> ranks_before
        (tokens ''Data code test file word list tree node edge path loop heap: DATA'')
        ''path'' ''heap''"
proof -
  let ?T = "''Data beats data; models need DATA, models too''"
  let ?U = "''Data code test file word list tree node edge path loop heap: DATA''"
  have 1: "extract_keywords ?T 10 = [''data'', ''models'', ''beats'', ''need'']"
    by code_simp
  have 2: "sorted_wrt (ranks_before (tokens ?T)) (extract_keywords ?T 10)
    \<and> (\<forall>k \<in> set (extract_keywords ?T 10). 3 < length k \<and> k \<notin> set stop_words)"
    using extract_keywords_contract [of ?T ?T ?T] by blast
  have 3: "extract_keywords ?U 10
       = [''data'', ''code'', ''test'', ''file'', ''word'', ''list'', ''tree'', ''node'',
          ''edge'', ''path'']"
    by code_simp
  have 4: "''heap'' \<in> set (tokens ?U)" by code_simp
  have 5: "keep_word ''heap''" by code_simp
  have 6: "''path'' \<in> set (extract_keywords ?U 10)" "''heap'' \<notin> set (extract_keywords ?U 10)"
    unfolding 3 by simp_all
  have 7: "ranks_before (tokens ?U) ''path'' ''heap''"
    using extract_keywords_contract [of ?U ?U ?U] 4 5 6 by blast
  from 1 2 3 5 7 show ?thesis unfolding list_all_iff by blast
qed

subsection \<open>The summary extractor\<close>

lemma split_runs_no_delim:
  "p \<in> set (split_runs d cur s) \<Longrightarrow> \<forall>c \<in> set cur. \<not> d c \<Longrightarrow> \<forall>c \<in> set p. \<not> d c"
  by (induction d cur s rule: split_runs.induct) (auto split: if_splits)

lemma split_runs_append:
  "\<forall>c \<in> set s. \<not> d c \<Longrightarrow> split_runs d cur (s @ rest) = split_runs d (cur @ s) rest"
  by (induction s arbitrary: cur) auto

lemma last_dropWhile: "dropWhile P xs \<noteq> [] \<Longrightarrow> last (dropWhile P xs) = last xs"
  by (induction xs) (auto split: if_splits)

lemma strip_clean:
  assumes "strip p \<noteq> []"
  shows "\<not> isspace (hd (strip p))" and "\<not> isspace (last (strip p))" and "set (strip p) \<subseteq> set p"
proof -
  let ?q = "dropWhile isspace p"
  let ?r = "dropWhile isspace (rev ?q)"
  have r: "?r \<noteq> []" using assms by (simp add: strip_def)
  have q: "?q \<noteq> []"
    using r by (metis dropWhile.simps(1) rev.simps(1))
  have "hd (strip p) = last ?r" using r by (simp add: strip_def hd_rev)
  also have "\<dots> = last (rev ?q)" using r by (rule last_dropWhile)
  also have "\<dots> = hd ?q" using q by (simp add: last_rev)
  finally show "\<not> isspace (hd (strip p))" using hd_dropWhile [OF q] by simp
  have "last (strip p) = hd ?r" using r by (simp add: strip_def last_rev)
  then show "\<not> isspace (last (strip p))" using hd_dropWhile [OF r] by simp
  show "set (strip p) \<subseteq> set p"
  proof
    fix x
    assume "x \<in> set (strip p)"
    then have "x \<in> set ?r" by (simp add: strip_def)
    then have "x \<in> set (rev ?q)" by (rule set_dropWhileD)
    then have "x \<in> set ?q" by simp
    then show "x \<in> set p" by (rule set_dropWhileD)
  qed
qed

lemma sentences_clean: "s \<in> set (sentences t) \<Longrightarrow> clean_sentence s"
proof -
  assume "s \<in> set (sentences t)"
  then obtain p where p: "p \<in> set (split_runs is_sentence_end [] t)" "s = strip p" "strip p \<noteq> []"
    by (auto simp: sentences_def)
  have "\<forall>c \<in> set p. \<not> is_sentence_end c"
    using split_runs_no_delim [OF p(1)] by simp
  with strip_clean [OF p(3)] p(2,3) show ?thesis
    by (auto simp: clean_sentence_def)
qed

lemma strip_padded:
  assumes "clean_sentence s" "\<forall>c \<in> set cur. isspace c"
  shows "strip (cur @ s) = s"
proof -
  have "dropWhile isspace (cur @ s) = dropWhile isspace s"
    using assms(2) by simp
  also have "\<dots> = s"
    using assms(1) by (cases s) (auto simp: clean_sentence_def)
  finally have 1: "dropWhile isspace (cur @ s) = s" .
  have "dropWhile isspace (rev s) = rev s"
    using assms(1) by (cases "rev s") (auto simp: clean_sentence_def last_rev [symmetric] simp del: last_rev)
  with 1 show ?thesis by (simp add: strip_def)
qed

lemma join_Cons2: "join sep (s # s' # ss) = s @ sep @ join sep (s' # ss)"
  by (simp add: join_def)

lemma strip_Nil: "strip [] = []"
  by (simp add: strip_def)

lemma sentences_of_joined:
  assumes "\<forall>s \<in> set (s # ss). clean_sentence s" "\<forall>c \<in> set cur. isspace c \<and> \<not> is_sentence_end c"
  shows "filter (\<lambda>s. s \<noteq> [])
           (map strip (split_runs is_sentence_end cur (join ''. '' (s # ss) @ ''.''))) = s # ss"
  using assms
proof (induction ss arbitrary: s cur)
  case Nil
  then have "split_runs is_sentence_end cur (s @ ''.'') = [cur @ s, []]"
    by (simp add: split_runs_append clean_sentence_def is_sentence_end_def)
  moreover have "strip (cur @ s) = s" "s \<noteq> []"
    using Nil by (simp_all add: strip_padded) (simp add: clean_sentence_def)
  ultimately show ?case by (simp add: join_def strip_Nil)
next
  case (Cons s' ss)
  let ?X = "join ''. '' (s' # ss) @ ''.''"
  have "split_runs is_sentence_end cur (s @ ''. '' @ ?X)
          = split_runs is_sentence_end (cur @ s) (''. '' @ ?X)"
    using Cons.prems by (simp add: split_runs_append clean_sentence_def)
  also have "\<dots> = (cur @ s) # split_runs is_sentence_end '' '' ?X"
    by (simp add: is_sentence_end_def)
  finally have split: "split_runs is_sentence_end cur (join ''. '' (s # s' # ss) @ ''.'')
      = (cur @ s) # split_runs is_sentence_end '' '' ?X"
    by (simp add: join_Cons2)
  have "filter (\<lambda>s. s \<noteq> []) (map strip (split_runs is_sentence_end '' '' ?X)) = s' # ss"
    using Cons.prems by (intro Cons.IH) (simp_all add: isspace_def is_sentence_end_def)
  moreover have "strip (cur @ s) = s" "s \<noteq> []"
    using Cons.prems by (simp_all add: strip_padded) (simp add: clean_sentence_def)
  ultimately show ?case unfolding split by simp
qed

lemma sentences_join:
  assumes "\<forall>s \<in> set ss. clean_sentence s"
  shows "sentences (join ''. '' ss @ ''.'') = ss"
proof (cases ss)
  case Nil
  then show ?thesis by (simp add: sentences_def join_def is_sentence_end_def strip_Nil)
next
  case (Cons s ss')
  with sentences_of_joined [of s ss' "[]"] assms show ?thesis
    by (simp add: sentences_def)
qed

lemma sentences_Nil: "sentences [] = []"
  by (simp add: sentences_def strip_Nil)

lemma generate_summary_sentences:
  "sentences (generate_summary t n) = take n (sentences t)"
proof -
  have "\<forall>s \<in> set (take n (sentences t)). clean_sentence s"
    using sentences_clean by (auto dest: in_set_takeD)
  then have "sentences (join ''. '' (take n (sentences t)) @ ''.'') = take n (sentences t)"
    by (rule sentences_join)
  then show ?thesis
    by (auto simp: generate_summary_def sentences_Nil)
qed

text \<open>
  C7 (amended). Splitting the summary again gives the first three sentences of the text,
  so the summary never has more than 3 sentences; and for every non-empty text with at
  most 3 sentences the summary is those sentences joined with \<open>". "\<close> and closed by a
  period. The empty text is answered by the empty string, not by a lone period.
\<close>

theorem generate_summary_contract:
  "sentences (generate_summary t 3) = take 3 (sentences t)
   \<and> length (sentences (generate_summary t 3)) \<le> 3
   \<and> (t \<noteq> [] \<and> length (sentences t) \<le> 3
        \<longrightarrow> generate_summary t 3 = join ''. '' (sentences t) @ ''.'')
   \<and> generate_summary [] 3 = []"
proof -
  have a: "sentences (generate_summary t 3) = take 3 (sentences t)"
    by (rule generate_summary_sentences)
  have b: "length (sentences (generate_summary t 3)) \<le> 3"
    by (simp add: a)
  have c: "t \<noteq> [] \<and> length (sentences t) \<le> 3
        \<longrightarrow> generate_summary t 3 = join ''. '' (sentences t) @ ''.''"
    by (simp add: generate_summary_def)
  have d: "generate_summary [] 3 = []"
    by (simp add: generate_summary_def)
  show ?thesis using a b c d by blast
qed

theorem generate_summary_contract_witness:
  "''One. Two!'' \<noteq> [] \<and> length (sentences ''One. Two!'') \<le> 3
   \<and> generate_summary ''One. Two!'' 3 = join ''. '' (sentences ''One. Two!'') @ ''.''
   \<and> generate_summary ''One. Two!'' 3 = ''One. Two.''"
proof -
  have "sentences ''One. Two!'' = [''One'', ''Two'']" by code_simp
  then show ?thesis
    using generate_summary_contract [of "''One. Two!''"] by (simp add: join_def)
qed

text \<open>
  The empty text has no sentence, and the join of no sentence closed by a period is
  \<open>"."\<close>; the guard at the head of \<open>generate_summary\<close> returns \<open>""\<close> instead.
\<close>

theorem generate_summary_empty_counterexample:
  "length (sentences []) \<le> 3 \<and> generate_summary [] 3 \<noteq> join ''. '' (sentences []) @ ''.''"
  by (simp add: sentences_Nil generate_summary_def join_def)

subsection \<open>The aggregator\<close>

lemma sort_by_relevance_sorted:
  "sorted_wrt (\<lambda>a b. relevance_score a \<ge> relevance_score b) (sort_by_relevance xs)"
proof -
  have "sorted (map (\<lambda>x. - relevance_score x) (sort_by_relevance xs))"
    unfolding sort_by_relevance_def by (rule sorted_sort_key)
  then show ?thesis by (simp add: sorted_wrt_map)
qed

lemma sort_by_relevance_stable:
  "filter (\<lambda>a. relevance_score a = k) (sort_by_relevance xs)
     = filter (\<lambda>a. relevance_score a = k) xs"
proof -
  have "filter (\<lambda>a. - relevance_score a = - k) (sort_key (\<lambda>x. - relevance_score x) xs)
          = filter (\<lambda>a. - relevance_score a = - k) xs"
    by (rule sort_key_stable)
  then show ?thesis by (simp add: sort_by_relevance_def)
qed

lemma filter_take_prefix: "prefix (filter P (take n xs)) (filter P xs)"
proof -
  have "filter P xs = filter P (take n xs) @ filter P (drop n xs)"
    by (simp flip: filter_append)
  then show ?thesis by (rule prefixI)
qed

lemma gather_left_out:
  assumes "a \<in> set (map process_article (all_articles env t))"
    and "a \<notin> set (gather_research_data env t)"
    and "b \<in> set (gather_research_data env t)"
  shows "relevance_score a \<le> relevance_score b"
proof -
  let ?s = "sort_by_relevance (map process_article (all_articles env t))"
  have "sorted_wrt (\<lambda>a b. relevance_score a \<ge> relevance_score b) (take 5 ?s @ drop 5 ?s)"
    using sort_by_relevance_sorted [of "map process_article (all_articles env t)"] by simp
  then have cross: "\<forall>x \<in> set (take 5 ?s). \<forall>y \<in> set (drop 5 ?s).
      relevance_score x \<ge> relevance_score y"
    unfolding sorted_wrt_append by blast
  have "a \<in> set ?s" using assms(1) by (simp add: sort_by_relevance_def)
  then have "a \<in> set (take 5 ?s) \<union> set (drop 5 ?s)" by (simp flip: set_append)
  with assms(2) have "a \<in> set (drop 5 ?s)" by (simp add: gather_research_data_def)
  moreover have "b \<in> set (take 5 ?s)" using assms(3) by (simp add: gather_research_data_def)
  ultimately show ?thesis using cross by blast
qed

text \<open>
  C5. Whatever the providers return, the list \<open>gather_research_data\<close> returns is sorted
  by \<open>relevance_score\<close>, largest first, and has at most 5 items; the sort is stable: the
  returned items of any one score are the first items of that score in provider-fetch
  order. The list holds 5 items or every fetched item, all of them processed fetched
  items, and no item left out scores higher than an item returned.
\<close>

theorem gather_research_data_ranked:
  "sorted_wrt (\<lambda>a b. relevance_score a \<ge> relevance_score b) (gather_research_data env t)
   \<and> length (gather_research_data env t) \<le> 5
   \<and> (\<forall>k. prefix (filter (\<lambda>a. relevance_score a = k) (gather_research_data env t))
              (filter (\<lambda>a. relevance_score a = k) (map process_article (all_articles env t))))
   \<and> length (gather_research_data env t) = min 5 (length (all_articles env t))
   \<and> set (gather_research_data env t) \<subseteq> set (map process_article (all_articles env t))
   \<and> (\<forall>a \<in> set (map process_article (all_articles env t)).
        \<forall>b \<in> set (gather_research_data env t).
          a \<notin> set (gather_research_data env t) \<longrightarrow> relevance_score a \<le> relevance_score b)"
proof -
  let ?p = "map process_article (all_articles env t)"
  have g: "gather_research_data env t = take 5 (sort_by_relevance ?p)"
    by (simp add: gather_research_data_def)
  have 1: "sorted_wrt (\<lambda>a b. relevance_score a \<ge> relevance_score b) (gather_research_data env t)"
    unfolding g by (intro sorted_wrt_take sort_by_relevance_sorted)
  have 2: "length (gather_research_data env t) = min 5 (length (all_articles env t))"
    unfolding g by (simp add: sort_by_relevance_def min.commute)
  have 3: "\<forall>k. prefix (filter (\<lambda>a. relevance_score a = k) (gather_research_data env t))
              (filter (\<lambda>a. relevance_score a = k) ?p)"
  proof
    fix k
    show "prefix (filter (\<lambda>a. relevance_score a = k) (gather_research_data env t))
              (filter (\<lambda>a. relevance_score a = k) ?p)"
      using filter_take_prefix [of "\<lambda>a. relevance_score a = k" 5 "sort_by_relevance ?p"]
      by (simp add: g sort_by_relevance_stable)
  qed
  have 4: "set (gather_research_data env t) \<subseteq> set ?p"
    unfolding g using set_take_subset [of 5 "sort_by_relevance ?p"]
    by (simp add: sort_by_relevance_def)
  have 5: "\<forall>a \<in> set ?p. \<forall>b \<in> set (gather_research_data env t).
          a \<notin> set (gather_research_data env t) \<longrightarrow> relevance_score a \<le> relevance_score b"
    using gather_left_out by blast
  from 2 have "length (gather_research_data env t) \<le> 5" by simp
  with 1 2 3 4 5 show ?thesis by blast
qed

theorem gather_research_data_ranked_witness:
  "map title (gather_research_data two_providers ''topic'')
     = [''H1'', ''W1'', ''W2'', ''W3'', ''H2'']
   \<and> map relevance_score (gather_research_data two_providers ''topic'') = [100, 80, 80, 80, 80]
   \<and> sorted_wrt (\<lambda>a b. relevance_score a \<ge> relevance_score b)
        (gather_research_data two_providers ''topic'')
   \<and> length (gather_research_data two_providers ''topic'') \<le> 5
   \<and> map title (filter (\<lambda>a. relevance_score a = 80)
        (map process_article (all_articles two_providers ''topic'')))
       = [''W1'', ''W2'', ''W3'', ''H2'']
   \<and> title (process_article (item ''H3'' ''hackernews'' ''Kept.'' 7)) = ''H3''
   \<and> list_all (\<lambda>b. relevance_score (process_article (item ''H3'' ''hackernews'' ''Kept.'' 7))
                       \<le> relevance_score b)
        (gather_research_data two_providers ''topic'')"
proof -
  let ?h = "process_article (item ''H3'' ''hackernews'' ''Kept.'' 7)"
  have 1: "map title (gather_research_data two_providers ''topic'')
     = [''H1'', ''W1'', ''W2'', ''W3'', ''H2'']"
    by code_simp
  have 2: "map relevance_score (gather_research_data two_providers ''topic'')
     = [100, 80, 80, 80, 80]"
    by code_simp
  have 3: "map title (filter (\<lambda>a. relevance_score a = 80)
        (map process_article (all_articles two_providers ''topic'')))
       = [''W1'', ''W2'', ''W3'', ''H2'']"
    by code_simp
  have 4: "title ?h = ''H3''"
    by (simp add: process_article_def item_def Let_def)
  have 5: "?h \<in> set (map process_article (all_articles two_providers ''topic''))"
    by (simp add: all_articles_def two_providers_def or_empty_def)
  have 6: "?h \<notin> set (gather_research_data two_providers ''topic'')"
  proof
    assume "?h \<in> set (gather_research_data two_providers ''topic'')"
    then have "title ?h \<in> set (map title (gather_research_data two_providers ''topic''))"
      by (auto simp: image_iff)
    then show False unfolding 1 4 by simp
  qed
  have 7: "\<forall>b \<in> set (gather_research_data two_providers ''topic'').
             relevance_score ?h \<le> relevance_score b"
    using gather_research_data_ranked [of two_providers "''topic''"] 5 6 by blast
  from 1 2 3 4 7 show ?thesis
    using gather_research_data_ranked [of two_providers "''topic''"]
    unfolding list_all_iff by blast
qed

subsection \<open>The record store\<close>

lemma find_filter_neq: "find (\<lambda>r. f r = k) (filter (\<lambda>r. f r \<noteq> k) xs) = None"
  by (simp add: find_None_iff)

text \<open>
  C9. Deleting a request that the store holds answers \<open>True\<close> and removes the request with
  all of its log entries and articles, and with them only: the rows of other requests
  stay. A detail query for the id then finds nothing. Deleting an id that the store does
  not hold answers \<open>False\<close>, the not-found signal, and leaves the store as it was.
\<close>

theorem delete_research_request_cascades:
  "(get_research_request db rid \<noteq> None \<longrightarrow>
      snd (delete_research_request db rid) = True
      \<and> get_research_request (fst (delete_research_request db rid)) rid = None
      \<and> get_research_request_detail (fst (delete_research_request db rid)) rid = None
      \<and> set (workflow_logs (fst (delete_research_request db rid)))
           = {l \<in> set (workflow_logs db). research_request_id l \<noteq> rid}
      \<and> set (articles (fst (delete_research_request db rid)))
           = {a \<in> set (articles db). article_request_id a \<noteq> rid}
      \<and> set (research_requests (fst (delete_research_request db rid)))
           = {r \<in> set (research_requests db). request_id r \<noteq> rid})
   \<and> (get_research_request db rid = None \<longrightarrow> delete_research_request db rid = (db, False))"
  by (auto simp: get_research_request_def delete_research_request_def
        get_research_request_detail_def find_filter_neq)

theorem delete_research_request_cascades_witness:
  "get_research_request finished_store 1 \<noteq> None
   \<and> length (workflow_logs finished_store) = 5 \<and> length (articles finished_store) = 5
   \<and> snd (delete_research_request finished_store 1) = True
   \<and> get_research_request_detail (fst (delete_research_request finished_store 1)) 1 = None
   \<and> set (workflow_logs (fst (delete_research_request finished_store 1)))
        = {l \<in> set (workflow_logs finished_store). research_request_id l \<noteq> 1}
   \<and> get_research_request empty_store 1 = None
   \<and> delete_research_request empty_store 1 = (empty_store, False)"
proof -
  have 1: "get_research_request finished_store 1 \<noteq> None"
    by code_simp
  have 2: "length (workflow_logs finished_store) = 5" "length (articles finished_store) = 5"
    by code_simp+
  have 3: "get_research_request empty_store 1 = None"
    by (simp add: get_research_request_def empty_store_def)
  show ?thesis
    using 1 2 3 delete_research_request_cascades [of finished_store 1]
      delete_research_request_cascades [of empty_store 1]
    by blast
qed

lemma find_map_same_key:
  assumes "\<And>x. key (f x) = key x"
  shows "find (\<lambda>x. key x = k) (map (\<lambda>x. if key x = k then f x else x) xs)
           = map_option f (find (\<lambda>x. key x = k) xs)"
  using assms by (induction xs) auto

lemma log_id_set_log [simp]: "log_id (set_log now s m d l) = log_id l"
  by (simp add: set_log_def Let_def split: option.splits)

lemma update_workflow_log_found:
  assumes "find (\<lambda>l. log_id l = lid) (workflow_logs db) = Some l"
  shows "snd (update_workflow_log db now lid s m d) = Some (set_log now s m d l)"
    and "find (\<lambda>l. log_id l = lid) (workflow_logs (fst (update_workflow_log db now lid s m d)))
           = Some (set_log now s m d l)"
  using assms find_map_same_key [of log_id "set_log now s m d" lid "workflow_logs db"]
  by (simp_all add: update_workflow_log_def)

text \<open>
  C10. For a log entry that the store holds, \<open>update_workflow_log\<close> stores and returns
  the entry with the new status. Only the status \<open>completed\<close> sets \<open>completed_at\<close> (to the
  time of the update) and, when \<open>started_at\<close> is set, \<open>duration_ms\<close> (to the milliseconds
  since \<open>started_at\<close> as the floating-point expression of the source gives them): under
  any other status, \<open>failed\<close> among them, both fields stay as they were. A message or
  details of \<open>None\<close> leave the stored message or details as they were; a non-empty one
  replaces them. The id, the request, the step and \<open>started_at\<close> never change.
\<close>

theorem update_workflow_log_frame:
  "find (\<lambda>l. log_id l = lid) (workflow_logs db) = Some l \<longrightarrow>
     (\<exists>l'. snd (update_workflow_log db now lid s m d) = Some l'
        \<and> find (\<lambda>l. log_id l = lid) (workflow_logs (fst (update_workflow_log db now lid s m d)))
            = Some l'
        \<and> log_status l' = s
        \<and> (s \<noteq> ''completed'' \<longrightarrow>
              log_completed_at l' = log_completed_at l \<and> duration_ms l' = duration_ms l)
        \<and> (s = ''completed'' \<longrightarrow>
              log_completed_at l' = Some now
              \<and> duration_ms l' = (case started_at l of None \<Rightarrow> duration_ms l
                                    | Some started \<Rightarrow> Some (elapsed_ms started now)))
        \<and> (m = None \<longrightarrow> message l' = message l)
        \<and> (d = None \<longrightarrow> details l' = details l)
        \<and> (truthy m \<longrightarrow> message l' = m)
        \<and> (truthy_payload d \<longrightarrow> details l' = d)
        \<and> log_id l' = log_id l \<and> research_request_id l' = research_request_id l
        \<and> step l' = step l \<and> started_at l' = started_at l)"
proof
  assume found: "find (\<lambda>l. log_id l = lid) (workflow_logs db) = Some l"
  let ?l = "set_log now s m d l"
  have "log_status ?l = s"
    and "s \<noteq> ''completed'' \<longrightarrow>
              log_completed_at ?l = log_completed_at l \<and> duration_ms ?l = duration_ms l"
    and "s = ''completed'' \<longrightarrow>
              log_completed_at ?l = Some now
              \<and> duration_ms ?l = (case started_at l of None \<Rightarrow> duration_ms l
                                    | Some started \<Rightarrow> Some (elapsed_ms started now))"
    and "m = None \<longrightarrow> message ?l = message l"
    and "d = None \<longrightarrow> details ?l = details l"
    and "truthy m \<longrightarrow> message ?l = m"
    and "truthy_payload d \<longrightarrow> details ?l = d"
    and "log_id ?l = log_id l \<and> research_request_id ?l = research_request_id l
        \<and> step ?l = step l \<and> started_at ?l = started_at l"
    by (simp_all add: set_log_def Let_def truthy_def truthy_payload_def split: option.splits)
  with update_workflow_log_found [OF found] show "\<exists>l'. snd (update_workflow_log db now lid s m d) = Some l'
        \<and> find (\<lambda>l. log_id l = lid) (workflow_logs (fst (update_workflow_log db now lid s m d)))
            = Some l'
        \<and> log_status l' = s
        \<and> (s \<noteq> ''completed'' \<longrightarrow>
              log_completed_at l' = log_completed_at l \<and> duration_ms l' = duration_ms l)
        \<and> (s = ''completed'' \<longrightarrow>
              log_completed_at l' = Some now
              \<and> duration_ms l' = (case started_at l of None \<Rightarrow> duration_ms l
                                    | Some started \<Rightarrow> Some (elapsed_ms started now)))
        \<and> (m = None \<longrightarrow> message l' = message l)
        \<and> (d = None \<longrightarrow> details l' = details l)
        \<and> (truthy m \<longrightarrow> message l' = m)
        \<and> (truthy_payload d \<longrightarrow> details l' = d)
        \<and> log_id l' = log_id l \<and> research_request_id l' = research_request_id l
        \<and> step l' = step l \<and> started_at l' = started_at l"
    by blast
qed

text \<open>
  An entry started at 5 ms and updated at 1006 ms: \<open>failed\<close> changes the status only;
  \<open>completed\<close> records the time and a duration of 1000 ms, the integer part of
  \<open>1.001 * 1000\<close> in floating point.
\<close>

theorem update_workflow_log_frame_witness:
  "find (\<lambda>l. log_id l = 1) (workflow_logs one_log) = Some started_log
   \<and> snd (update_workflow_log one_log 1006000 1 ''failed'' None None)
       = Some (started_log\<lparr>log_status := ''failed''\<rparr>)
   \<and> snd (update_workflow_log one_log 1006000 1 ''completed'' (Some ''Done'') None)
       = Some (started_log\<lparr>log_status := ''completed'', message := Some ''Done'',
                 log_completed_at := Some 1006000, duration_ms := Some 1000\<rparr>)"
proof -
  have found: "find (\<lambda>l. log_id l = 1) (workflow_logs one_log) = Some started_log"
    by (simp add: one_log_def started_log_def)
  obtain l1 where l1: "snd (update_workflow_log one_log 1006000 1 ''failed'' None None) = Some l1"
    "log_completed_at l1 = log_completed_at started_log" "message l1 = message started_log"
    using update_workflow_log_frame [of 1 one_log started_log 1006000 "''failed''" None None] found
    by auto
  have elapsed: "elapsed_ms 5000 1006000 = 1000"
    by code_simp
  have "snd (update_workflow_log one_log 1006000 1 ''failed'' None None)
       = Some (started_log\<lparr>log_status := ''failed''\<rparr>)"
    by (simp add: update_workflow_log_def one_log_def started_log_def set_log_def
          truthy_def truthy_payload_def)
  moreover have "snd (update_workflow_log one_log 1006000 1 ''completed'' (Some ''Done'') None)
       = Some (started_log\<lparr>log_status := ''completed'', message := Some ''Done'',
                 log_completed_at := Some 1006000, duration_ms := Some 1000\<rparr>)"
    by (simp add: update_workflow_log_def one_log_def started_log_def set_log_def
          truthy_def truthy_payload_def elapsed)
  ultimately show ?thesis using found l1 by blast
qed

subsection \<open>The stages and the log they write\<close>

lemma fresh_id_gt: "i \<in> set ids \<Longrightarrow> i < fresh_id ids"
proof -
  assume "i \<in> set ids"
  then have "i \<le> Max (set (0 # ids))" by simp
  also have "\<dots> = fold max ids 0" by (rule Max.set_eq_fold)
  finally show ?thesis by (simp add: fresh_id_def)
qed

lemma fresh_id_new: "fresh_id (map f xs) \<notin> f ` set xs"
  using fresh_id_gt [of "fresh_id (map f xs)" "map f xs"] by auto

lemma create_workflow_log_store:
  "fst (create_workflow_log db now rid st s m d)
     = db\<lparr>workflow_logs := workflow_logs db @ [snd (create_workflow_log db now rid st s m d)]\<rparr>"
  by (simp add: create_workflow_log_def Let_def)

lemma create_workflow_log_entry:
  "snd (create_workflow_log db now rid st s m d)
     = \<lparr>log_id = fresh_id (map log_id (workflow_logs db)), research_request_id = rid,
         step = st, log_status = s, message = m, details = d,
         started_at = Some now, log_completed_at = None, duration_ms = None\<rparr>"
  by (simp add: create_workflow_log_def Let_def)

lemma create_workflow_log_fresh:
  "log_id (snd (create_workflow_log db now rid st s m d)) \<notin> log_id ` set (workflow_logs db)"
  by (simp add: create_workflow_log_entry fresh_id_new)

lemma update_last_log:
  assumes "workflow_logs d = ls @ [l]" "log_id l \<notin> log_id ` set ls"
  shows "fst (update_workflow_log d now (log_id l) s m x)
           = d\<lparr>workflow_logs := ls @ [set_log now s m x l]\<rparr>"
proof -
  have "find (\<lambda>y. log_id y = log_id l) (ls @ [l]) = Some l"
    using assms(2) by (induction ls) auto
  moreover have "map (\<lambda>y. if log_id y = log_id l then set_log now s m x y else y) ls = ls"
    using assms(2) by (induction ls) auto
  ultimately show ?thesis
    using assms(1) by (simp add: update_workflow_log_def)
qed

lemma set_log_fields:
  "step (set_log now s m x l) = step l"
  "research_request_id (set_log now s m x l) = research_request_id l"
  "log_status (set_log now s m x l) = s"
  "log_id (set_log now s m x l) = log_id l"
  by (simp_all add: set_log_def Let_def split: option.splits)

lemma update_after_create:
  assumes "workflow_logs d = workflow_logs db @ [snd (create_workflow_log db t0 rid st s0 m0 d0)]"
  shows "fst (update_workflow_log d t1
                (log_id (snd (create_workflow_log db t0 rid st s0 m0 d0))) s1 m1 d1)
           = d\<lparr>workflow_logs := workflow_logs db
                  @ [set_log t1 s1 m1 d1 (snd (create_workflow_log db t0 rid st s0 m0 d0))]\<rparr>"
  using assms create_workflow_log_fresh by (rule update_last_log)

lemma created_log_fields:
  "step (snd (create_workflow_log db now rid st s m d)) = st"
  "research_request_id (snd (create_workflow_log db now rid st s m d)) = rid"
  by (simp_all add: create_workflow_log_entry)

lemma created_log_status:
  "log_status (snd (create_workflow_log db now rid st s m d)) = s"
  by (simp add: create_workflow_log_entry)

lemma execute_input_parsing_result:
  "snd (execute_input_parsing env db rid t) = validate_topic env t"
  by (simp add: execute_input_parsing_def case_prod_beta Let_def split: sum.splits)

lemma execute_input_parsing_effect:
  "\<exists>e. extends_logs db (fst (execute_input_parsing env db rid t)) [e]
      \<and> articles (fst (execute_input_parsing env db rid t)) = articles db
      \<and> step e = INPUT_PARSING \<and> research_request_id e = rid
      \<and> log_status e = (case validate_topic env t of
                          Inl x \<Rightarrow> if session_lost x then ''started'' else ''failed'' | Inr r \<Rightarrow> ''completed'')"
  unfolding execute_input_parsing_def case_prod_beta Let_def
  by (simp add: update_after_create create_workflow_log_store extends_logs_def set_log_fields
        created_log_fields created_log_status split: sum.splits option.splits prod.splits)

lemma execute_data_gathering_result:
  "snd (execute_data_gathering env db rid t)
     = (case fault env DATA_GATHERING of
          Some e \<Rightarrow> Inl e | None \<Rightarrow> Inr (gather_research_data env t))"
  by (simp add: execute_data_gathering_def case_prod_beta Let_def split: sum.splits option.splits)

lemma execute_data_gathering_effect:
  "\<exists>e. extends_logs db (fst (execute_data_gathering env db rid t)) [e]
      \<and> articles (fst (execute_data_gathering env db rid t)) = articles db
      \<and> step e = DATA_GATHERING \<and> research_request_id e = rid
      \<and> log_status e = (case fault env DATA_GATHERING of
                          Some x \<Rightarrow> if session_lost x then ''started'' else ''failed'' | None \<Rightarrow> ''completed'')"
  unfolding execute_data_gathering_def case_prod_beta Let_def
  by (simp add: update_after_create create_workflow_log_store extends_logs_def set_log_fields
        created_log_fields created_log_status split: sum.splits option.splits prod.splits)

lemma execute_processing_result:
  "snd (execute_processing env db rid xs)
     = (case fault env STEP_PROCESSING of
          Some e \<Rightarrow> Inl e | None \<Rightarrow> Inr (process_articles xs))"
  by (simp add: execute_processing_def case_prod_beta Let_def split: sum.splits option.splits)

lemma execute_processing_effect:
  "\<exists>e. extends_logs db (fst (execute_processing env db rid xs)) [e]
      \<and> articles (fst (execute_processing env db rid xs)) = articles db
      \<and> step e = STEP_PROCESSING \<and> research_request_id e = rid
      \<and> log_status e = (case fault env STEP_PROCESSING of
                          Some x \<Rightarrow> if session_lost x then ''started'' else ''failed'' | None \<Rightarrow> ''completed'')"
  unfolding execute_processing_def case_prod_beta Let_def
  by (simp add: update_after_create create_workflow_log_store extends_logs_def set_log_fields
        created_log_fields created_log_status split: sum.splits option.splits prod.splits)

lemma save_articles_requests:
  "research_requests (fst (save_articles db now rid xs)) = research_requests db"
  by (induction xs arbitrary: db) (simp_all add: create_article_def case_prod_beta Let_def)

lemma save_articles_logs:
  "workflow_logs (fst (save_articles db now rid xs)) = workflow_logs db"
  by (induction xs arbitrary: db) (simp_all add: create_article_def case_prod_beta Let_def)

lemma save_articles_length:
  "length (snd (save_articles db now rid xs)) = length xs"
  by (induction xs arbitrary: db) (simp_all add: create_article_def case_prod_beta Let_def)

lemma execute_result_persistence_result:
  "snd (execute_result_persistence env db rid p)
     = (case fault env RESULT_PERSISTENCE of
          Some e \<Rightarrow> Inl e
        | None \<Rightarrow> Inr \<lparr>articles_saved = length (proc_top_articles p),
                       pers_keywords = proc_keywords p, pers_summary = proc_summary p,
                       pers_sources = proc_sources p,
                       pers_total_articles_found = total_articles_processed p\<rparr>)"
  by (simp add: execute_result_persistence_def case_prod_beta Let_def save_articles_length
        split: option.splits)

lemma execute_result_persistence_effect:
  "\<exists>e. extends_logs db (fst (execute_result_persistence env db rid p)) [e]
      \<and> step e = RESULT_PERSISTENCE \<and> research_request_id e = rid
      \<and> log_status e = (case fault env RESULT_PERSISTENCE of
                          Some x \<Rightarrow> if session_lost x then ''started'' else ''failed'' | None \<Rightarrow> ''completed'')"
  unfolding execute_result_persistence_def case_prod_beta Let_def
  by (simp add: update_after_create create_workflow_log_store extends_logs_def set_log_fields
        created_log_fields created_log_status save_articles_requests save_articles_logs
      split: sum.splits option.splits prod.splits)

lemma execute_return_results_result:
  "snd (execute_return_results env db rid p ws)
     = map_sum id fst
         (prepare_results env
            (fst (create_workflow_log db (clock env 10) rid RETURN_RESULTS ''started''
                    (Some ''Preparing final structured results'') None)) rid p ws)"
  by (simp add: execute_return_results_def case_prod_beta Let_def split: sum.splits)

lemma execute_return_results_effect:
  "\<exists>e. extends_logs db (fst (execute_return_results env db rid p ws)) [e]
      \<and> articles (fst (execute_return_results env db rid p ws)) = articles db
      \<and> step e = RETURN_RESULTS \<and> research_request_id e = rid
      \<and> log_status e = (case snd (execute_return_results env db rid p ws) of
                          Inl x \<Rightarrow> if session_lost x then ''started'' else ''failed'' | Inr r \<Rightarrow> ''completed'')"
  unfolding execute_return_results_def case_prod_beta Let_def
  by (simp add: update_after_create create_workflow_log_store extends_logs_def set_log_fields
        created_log_fields created_log_status split: sum.splits option.splits prod.splits)

lemma workflow_steps_unfold:
  "workflow_steps env db rid t ws =
     (let d1 = fst (execute_input_parsing env db rid t) in
      case validate_topic env t of
        Inl e \<Rightarrow> (d1, Inl e)
      | Inr r1 \<Rightarrow>
     (let d2 = fst (execute_data_gathering env d1 rid t) in
      case fault env DATA_GATHERING of
        Some e \<Rightarrow> (d2, Inl e)
      | None \<Rightarrow>
     (let d3 = fst (execute_processing env d2 rid (gather_research_data env t)) in
      case fault env STEP_PROCESSING of
        Some e \<Rightarrow> (d3, Inl e)
      | None \<Rightarrow>
     (let p = process_articles (gather_research_data env t);
          d4 = fst (execute_result_persistence env d3 rid p) in
      case fault env RESULT_PERSISTENCE of
        Some e \<Rightarrow> (d4, Inl e)
      | None \<Rightarrow>
          execute_return_results env d4 rid
            \<lparr>articles_saved = length (proc_top_articles p),
             pers_keywords = proc_keywords p, pers_summary = proc_summary p,
             pers_sources = proc_sources p,
             pers_total_articles_found = total_articles_processed p\<rparr> ws))))"
  by (simp add: workflow_steps_def case_prod_beta Let_def execute_input_parsing_result
        execute_data_gathering_result execute_processing_result
        execute_result_persistence_result
      split: sum.splits option.splits)

lemma stage_traces:
  "stage_trace 1 False = [(INPUT_PARSING, ''failed'')]"
  "stage_trace (Suc 0) False = [(INPUT_PARSING, ''failed'')]"
  "stage_trace 2 False = [(INPUT_PARSING, ''completed''), (DATA_GATHERING, ''failed'')]"
  "stage_trace 3 False = [(INPUT_PARSING, ''completed''), (DATA_GATHERING, ''completed''),
                          (STEP_PROCESSING, ''failed'')]"
  "stage_trace 4 False = [(INPUT_PARSING, ''completed''), (DATA_GATHERING, ''completed''),
                          (STEP_PROCESSING, ''completed''), (RESULT_PERSISTENCE, ''failed'')]"
  "stage_trace 5 False = [(INPUT_PARSING, ''completed''), (DATA_GATHERING, ''completed''),
                          (STEP_PROCESSING, ''completed''), (RESULT_PERSISTENCE, ''completed''),
                          (RETURN_RESULTS, ''failed'')]"
  "stage_trace 5 True = [(INPUT_PARSING, ''completed''), (DATA_GATHERING, ''completed''),
                         (STEP_PROCESSING, ''completed''), (RESULT_PERSISTENCE, ''completed''),
                         (RETURN_RESULTS, ''completed'')]"
  by (simp_all add: stage_trace_def stage_order_def numeral_eq_Suc)

lemma stalled_traces:
  "stalled_trace 1 = [(INPUT_PARSING, ''started'')]"
  "stalled_trace (Suc 0) = [(INPUT_PARSING, ''started'')]"
  "stalled_trace 2 = [(INPUT_PARSING, ''completed''), (DATA_GATHERING, ''started'')]"
  "stalled_trace 3 = [(INPUT_PARSING, ''completed''), (DATA_GATHERING, ''completed''),
                      (STEP_PROCESSING, ''started'')]"
  "stalled_trace 4 = [(INPUT_PARSING, ''completed''), (DATA_GATHERING, ''completed''),
                      (STEP_PROCESSING, ''completed''), (RESULT_PERSISTENCE, ''started'')]"
  "stalled_trace 5 = [(INPUT_PARSING, ''completed''), (DATA_GATHERING, ''completed''),
                      (STEP_PROCESSING, ''completed''), (RESULT_PERSISTENCE, ''completed''),
                      (RETURN_RESULTS, ''started'')]"
  by (simp_all add: stalled_trace_def stage_order_def numeral_eq_Suc)

lemma workflow_steps_trace:
  "\<exists>es. extends_logs db (fst (workflow_steps env db rid t ws)) es
      \<and> (\<forall>e \<in> set es. research_request_id e = rid)
      \<and> (case snd (workflow_steps env db rid t ws) of
            Inr r \<Rightarrow> log_trace es = stage_trace 5 True
          | Inl x \<Rightarrow> (\<exists>k \<in> {1, 2, 3, 4, 5}.
                        log_trace es = (if session_lost x then stalled_trace k
                                        else stage_trace k False)))"
proof -
  let ?d1 = "fst (execute_input_parsing env db rid t)"
  let ?d2 = "fst (execute_data_gathering env ?d1 rid t)"
  let ?d3 = "fst (execute_processing env ?d2 rid (gather_research_data env t))"
  let ?p = "process_articles (gather_research_data env t)"
  let ?d4 = "fst (execute_result_persistence env ?d3 rid ?p)"
  let ?q = "\<lparr>articles_saved = length (proc_top_articles ?p),
             pers_keywords = proc_keywords ?p, pers_summary = proc_summary ?p,
             pers_sources = proc_sources ?p,
             pers_total_articles_found = total_articles_processed ?p\<rparr>"
  let ?s5 = "execute_return_results env ?d4 rid ?q ws"
  obtain e1 where e1: "extends_logs db ?d1 [e1]" "research_request_id e1 = rid"
    "step e1 = INPUT_PARSING"
    "log_status e1 = (case validate_topic env t of Inl x \<Rightarrow> if session_lost x then ''started'' else ''failed'' | Inr r \<Rightarrow> ''completed'')"
    using execute_input_parsing_effect [of db env rid t] by blast
  obtain e2 where e2: "extends_logs ?d1 ?d2 [e2]" "research_request_id e2 = rid"
    "step e2 = DATA_GATHERING"
    "log_status e2 = (case fault env DATA_GATHERING of Some x \<Rightarrow> if session_lost x then ''started'' else ''failed'' | None \<Rightarrow> ''completed'')"
    using execute_data_gathering_effect [of ?d1 env rid t] by blast
  obtain e3 where e3: "extends_logs ?d2 ?d3 [e3]" "research_request_id e3 = rid"
    "step e3 = STEP_PROCESSING"
    "log_status e3 = (case fault env STEP_PROCESSING of Some x \<Rightarrow> if session_lost x then ''started'' else ''failed'' | None \<Rightarrow> ''completed'')"
    using execute_processing_effect [of ?d2 env rid "gather_research_data env t"] by blast
  obtain e4 where e4: "extends_logs ?d3 ?d4 [e4]" "research_request_id e4 = rid"
    "step e4 = RESULT_PERSISTENCE"
    "log_status e4 = (case fault env RESULT_PERSISTENCE of Some x \<Rightarrow> if session_lost x then ''started'' else ''failed'' | None \<Rightarrow> ''completed'')"
    using execute_result_persistence_effect [of ?d3 env rid ?p] by blast
  obtain e5 where e5: "extends_logs ?d4 (fst ?s5) [e5]" "research_request_id e5 = rid"
    "step e5 = RETURN_RESULTS"
    "log_status e5 = (case snd ?s5 of Inl x \<Rightarrow> if session_lost x then ''started'' else ''failed'' | Inr r \<Rightarrow> ''completed'')"
    using execute_return_results_effect [of ?d4 env rid ?q ws] by blast
  show ?thesis
  proof (cases "validate_topic env t")
    case (Inl x)
    with e1 show ?thesis
      by (intro exI [of _ "[e1]"]) (simp add: workflow_steps_unfold log_trace_def stage_traces stalled_traces)
  next
    case v: (Inr r1)
    show ?thesis
    proof (cases "fault env DATA_GATHERING")
      case (Some x)
      with v e1 e2 show ?thesis
        by (intro exI [of _ "[e1, e2]"])
           (simp add: workflow_steps_unfold log_trace_def stage_traces stalled_traces extends_logs_def)
    next
      case g: None
      show ?thesis
      proof (cases "fault env STEP_PROCESSING")
        case (Some x)
        with v g e1 e2 e3 show ?thesis
          by (intro exI [of _ "[e1, e2, e3]"])
             (simp add: workflow_steps_unfold log_trace_def stage_traces stalled_traces extends_logs_def)
      next
        case p: None
        show ?thesis
        proof (cases "fault env RESULT_PERSISTENCE")
          case (Some x)
          with v g p e1 e2 e3 e4 show ?thesis
            by (intro exI [of _ "[e1, e2, e3, e4]"])
               (simp add: workflow_steps_unfold log_trace_def stage_traces stalled_traces extends_logs_def)
        next
          case s: None
          have w: "workflow_steps env db rid t ws = ?s5"
            using v g p s by (simp add: workflow_steps_unfold Let_def)
          from e1 e2 e3 e4 e5 v g p s show ?thesis
            unfolding w
            by (intro exI [of _ "[e1, e2, e3, e4, e5]"])
               (simp add: log_trace_def stage_traces stalled_traces extends_logs_def split: sum.splits)
        qed
      qed
    qed
  qed
qed

subsection \<open>One run of the workflow\<close>

lemma find_map_key:
  assumes "\<And>x. key (f x) = key x"
  shows "find (\<lambda>x. key x = k) (map (\<lambda>x. if key x = k then f x else x) xs)
           = map_option f (find (\<lambda>x. key x = k) xs)"
  using assms by (induction xs) auto

lemma request_id_set_status: "request_id (set_status now s res e r) = request_id r"
  by (simp add: set_status_def)

lemma update_status_lookup:
  assumes "get_research_request db rid = Some r"
  shows "get_research_request (fst (update_status db now rid s res e)) rid
           = Some (set_status now s res e r)"
  using assms find_map_key [of request_id "set_status now s res e" rid "research_requests db"]
  by (simp add: get_research_request_def update_status_def request_id_set_status)

lemma update_status_frame:
  "workflow_logs (fst (update_status db now rid s res e)) = workflow_logs db"
  "articles (fst (update_status db now rid s res e)) = articles db"
  by (simp_all add: update_status_def split: option.splits)

lemma workflow_failed_result:
  assumes "get_research_request db rid = Some r"
  shows "snd (workflow_failed env db rid e) = Inl e"
  using assms by (simp add: workflow_failed_def case_prod_beta Let_def)

lemma workflow_failed_lost:
  assumes "session_lost e"
  shows "workflow_failed env db rid e = (db, Inl e)"
  using assms by (simp add: workflow_failed_def)

lemma workflow_failed_request:
  assumes "get_research_request db rid = Some r" and "\<not> session_lost e"
  shows "get_research_request (fst (workflow_failed env db rid e)) rid
           = Some (set_status (clock env 16) FAILED None (Some (str_error e)) r)"
proof -
  let ?d = "fst (create_workflow_log db (clock env 15) rid RETURN_RESULTS ''failed''
                   (Some (''Workflow failed: '' @ str_error e)) None)"
  have "get_research_request ?d rid = Some r"
    using assms by (simp add: get_research_request_def create_workflow_log_store)
  then show ?thesis
    using assms by (simp add: workflow_failed_def case_prod_beta Let_def update_status_lookup)
qed

lemma workflow_failed_logs:
  assumes "get_research_request db rid = Some r" and "\<not> session_lost e"
  shows "workflow_logs (fst (workflow_failed env db rid e))
     = workflow_logs db
       @ [\<lparr>log_id = fresh_id (map log_id (workflow_logs db)), research_request_id = rid,
            step = RETURN_RESULTS, log_status = ''failed'',
            message = Some (''Workflow failed: '' @ str_error e), details = None,
            started_at = Some (clock env 15), log_completed_at = None, duration_ms = None\<rparr>]"
  using assms
  by (simp add: workflow_failed_def case_prod_beta Let_def update_status_frame
        create_workflow_log_store create_workflow_log_entry)

lemma start_research_workflow_unfold:
  assumes "get_research_request db rid = Some r"
  shows "start_research_workflow env db rid =
     (let d5 = fst (workflow_steps env
                      (fst (update_status db (clock env 0) rid PROCESSING None None)) rid
                      (topic r) (clock env 0)) in
      case snd (workflow_steps env
                  (fst (update_status db (clock env 0) rid PROCESSING None None)) rid
                  (topic r) (clock env 0)) of
        Inl e \<Rightarrow> workflow_failed env d5 rid e
      | Inr final \<Rightarrow>
          (fst (update_status d5 (clock env 14) rid COMPLETED (Some final) None), Inr final))"
  using assms
  by (simp add: start_research_workflow_def Let_def case_prod_beta split: sum.splits)

lemma set_status_fields:
  "status (set_status now s res e r) = s"
  "error_message (set_status now s res e r) = (if truthy e then e else error_message r)"
  "completed_at (set_status now s res e r) = (if s = COMPLETED then Some now else completed_at r)"
  "results (set_status now s res e r) = (case res of None \<Rightarrow> results r | Some v \<Rightarrow> Some v)"
  "topic (set_status now s res e r) = topic r"
  by (simp_all add: set_status_def)

lemma new_logs_extends: "extends_logs db d es \<Longrightarrow> new_logs db d = es"
  by (simp add: extends_logs_def new_logs_def)

lemma workflow_steps_requests:
  "research_requests (fst (workflow_steps env d rid t ws)) = research_requests d"
  using workflow_steps_trace [of d env rid t ws] by (auto simp: extends_logs_def)

lemma workflow_steps_logs:
  "workflow_logs (fst (workflow_steps env d rid t ws))
     = workflow_logs d @ new_logs d (fst (workflow_steps env d rid t ws))"
  using workflow_steps_trace [of d env rid t ws] by (auto simp: extends_logs_def new_logs_def)

lemma workflow_steps_new_logs:
  "(\<forall>l \<in> set (new_logs d (fst (workflow_steps env d rid t ws))). research_request_id l = rid)
   \<and> (case snd (workflow_steps env d rid t ws) of
         Inr r \<Rightarrow> log_trace (new_logs d (fst (workflow_steps env d rid t ws))) = stage_trace 5 True
       | Inl x \<Rightarrow> (\<exists>k \<in> {1, 2, 3, 4, 5}.
                    log_trace (new_logs d (fst (workflow_steps env d rid t ws)))
                      = (if session_lost x then stalled_trace k else stage_trace k False)))"
proof -
  obtain es where es: "extends_logs d (fst (workflow_steps env d rid t ws)) es"
    "\<forall>e \<in> set es. research_request_id e = rid"
    "case snd (workflow_steps env d rid t ws) of
            Inr r \<Rightarrow> log_trace es = stage_trace 5 True
          | Inl x \<Rightarrow> (\<exists>k \<in> {1, 2, 3, 4, 5}.
                        log_trace es = (if session_lost x then stalled_trace k
                                        else stage_trace k False))"
    using workflow_steps_trace [of d env rid t ws] by blast
  from es(1) have "new_logs d (fst (workflow_steps env d rid t ws)) = es"
    by (rule new_logs_extends)
  with es(2,3) show ?thesis by (auto split: sum.splits)
qed

lemma run_after_raise:
  assumes r: "get_research_request db rid = Some r"
    and w: "snd (workflow_steps env
                   (fst (update_status db (clock env 0) rid PROCESSING None None)) rid
                   (topic r) (clock env 0)) = Inl e"
  shows "start_research_workflow env db rid
           = workflow_failed env
               (fst (workflow_steps env
                       (fst (update_status db (clock env 0) rid PROCESSING None None)) rid
                       (topic r) (clock env 0))) rid e"
    and "get_research_request
           (fst (workflow_steps env
                   (fst (update_status db (clock env 0) rid PROCESSING None None)) rid
                   (topic r) (clock env 0))) rid
           = Some (set_status (clock env 0) PROCESSING None None r)"
    and "snd (start_research_workflow env db rid) = Inl e"
proof -
  let ?d0 = "fst (update_status db (clock env 0) rid PROCESSING None None)"
  let ?w = "workflow_steps env ?d0 rid (topic r) (clock env 0)"
  let ?r0 = "set_status (clock env 0) PROCESSING None None r"
  show s: "start_research_workflow env db rid = workflow_failed env (fst ?w) rid e"
    using start_research_workflow_unfold [OF r, of env] w by (simp add: Let_def)
  have "get_research_request ?d0 rid = Some ?r0"
    using r by (rule update_status_lookup)
  then show g: "get_research_request (fst ?w) rid = Some ?r0"
    by (simp add: get_research_request_def workflow_steps_requests)
  show "snd (start_research_workflow env db rid) = Inl e"
    unfolding s using g by (rule workflow_failed_result)
qed

lemma failed_run:
  assumes r: "get_research_request db rid = Some r"
    and w: "snd (workflow_steps env
                   (fst (update_status db (clock env 0) rid PROCESSING None None)) rid
                   (topic r) (clock env 0)) = Inl e"
    and usable: "\<not> session_lost e"
  shows "get_research_request (fst (start_research_workflow env db rid)) rid
           = Some (set_status (clock env 16) FAILED None (Some (str_error e))
                    (set_status (clock env 0) PROCESSING None None r))"
    and "new_logs db (fst (start_research_workflow env db rid))
           = new_logs (fst (update_status db (clock env 0) rid PROCESSING None None))
               (fst (workflow_steps env
                       (fst (update_status db (clock env 0) rid PROCESSING None None)) rid
                       (topic r) (clock env 0)))
             @ [\<lparr>log_id = fresh_id (map log_id (workflow_logs
                    (fst (workflow_steps env
                       (fst (update_status db (clock env 0) rid PROCESSING None None)) rid
                       (topic r) (clock env 0))))),
                 research_request_id = rid, step = RETURN_RESULTS, log_status = ''failed'',
                 message = Some (''Workflow failed: '' @ str_error e), details = None,
                 started_at = Some (clock env 15), log_completed_at = None,
                 duration_ms = None\<rparr>]"
proof -
  let ?d0 = "fst (update_status db (clock env 0) rid PROCESSING None None)"
  let ?w = "workflow_steps env ?d0 rid (topic r) (clock env 0)"
  let ?r0 = "set_status (clock env 0) PROCESSING None None r"
  note s = run_after_raise(1) [OF r w]
  note g = run_after_raise(2) [OF r w]
  from g usable show "get_research_request (fst (start_research_workflow env db rid)) rid
      = Some (set_status (clock env 16) FAILED None (Some (str_error e)) ?r0)"
    unfolding s by (rule workflow_failed_request)
  define es where "es = new_logs ?d0 (fst ?w)"
  have logs: "workflow_logs (fst ?w) = workflow_logs db @ es"
    using workflow_steps_logs [of env ?d0 rid "topic r" "clock env 0"]
    by (simp add: es_def update_status_frame)
  have "drop (length (workflow_logs db)) (workflow_logs (fst (workflow_failed env (fst ?w) rid e)))
          = es @ [\<lparr>log_id = fresh_id (map log_id (workflow_logs (fst ?w))),
                 research_request_id = rid, step = RETURN_RESULTS, log_status = ''failed'',
                 message = Some (''Workflow failed: '' @ str_error e), details = None,
                 started_at = Some (clock env 15), log_completed_at = None,
                 duration_ms = None\<rparr>]"
    unfolding workflow_failed_logs [OF g usable] by (simp add: logs)
  then show "new_logs db (fst (start_research_workflow env db rid))
           = new_logs ?d0 (fst ?w)
             @ [\<lparr>log_id = fresh_id (map log_id (workflow_logs (fst ?w))),
                 research_request_id = rid, step = RETURN_RESULTS, log_status = ''failed'',
                 message = Some (''Workflow failed: '' @ str_error e), details = None,
                 started_at = Some (clock env 15), log_completed_at = None,
                 duration_ms = None\<rparr>]"
    unfolding s es_def [symmetric] by (simp add: new_logs_def)
qed

text \<open>
  A run whose session is lost in stage \<open>k\<close>: the handler writes nothing, so the log ends
  with the entry of stage \<open>k\<close> as it was created and the request stays in \<open>PROCESSING\<close>.
\<close>

lemma lost_session_run:
  assumes r: "get_research_request db rid = Some r"
    and w: "snd (workflow_steps env
                   (fst (update_status db (clock env 0) rid PROCESSING None None)) rid
                   (topic r) (clock env 0)) = Inl e"
    and lost: "session_lost e"
  shows "job_status (fst (start_research_workflow env db rid)) rid = Some PROCESSING"
    and "\<exists>k \<in> {1, 2, 3, 4, 5}.
           log_trace (new_logs db (fst (start_research_workflow env db rid))) = stalled_trace k"
proof -
  let ?d0 = "fst (update_status db (clock env 0) rid PROCESSING None None)"
  let ?w = "workflow_steps env ?d0 rid (topic r) (clock env 0)"
  have s: "start_research_workflow env db rid = (fst ?w, Inl e)"
    using run_after_raise(1) [OF r w] lost by (simp add: workflow_failed_lost)
  show "job_status (fst (start_research_workflow env db rid)) rid = Some PROCESSING"
    unfolding s by (simp add: job_status_def run_after_raise(2) [OF r w] set_status_fields)
  define es where "es = new_logs ?d0 (fst ?w)"
  have logs: "workflow_logs (fst ?w) = workflow_logs db @ es"
    using workflow_steps_logs [of env ?d0 rid "topic r" "clock env 0"]
    by (simp add: es_def update_status_frame)
  have "new_logs db (fst ?w) = es"
    by (simp add: new_logs_def logs)
  moreover have "\<exists>k \<in> {1, 2, 3, 4, 5}. log_trace es = stalled_trace k"
    using workflow_steps_new_logs [of ?d0 env rid "topic r" "clock env 0"] w lost
    by (simp add: es_def)
  ultimately show "\<exists>k \<in> {1, 2, 3, 4, 5}.
           log_trace (new_logs db (fst (start_research_workflow env db rid))) = stalled_trace k"
    unfolding s by simp
qed

lemma write_fails_run:
  "snd (start_research_workflow write_fails (one_request ''Quantum Computing'' PENDING) 1)
     = Inl (PendingRollbackError ''rolled back'')
   \<and> job_status (fst (start_research_workflow write_fails
                        (one_request ''Quantum Computing'' PENDING) 1)) 1 = Some PROCESSING
   \<and> log_trace (new_logs (one_request ''Quantum Computing'' PENDING)
        (fst (start_research_workflow write_fails
                (one_request ''Quantum Computing'' PENDING) 1)))
       = stalled_trace 4
   \<and> length (articles (fst (start_research_workflow write_fails
                               (one_request ''Quantum Computing'' PENDING) 1))) = 2"
proof -
  have 1: "snd (start_research_workflow write_fails (one_request ''Quantum Computing'' PENDING) 1)
     = Inl (PendingRollbackError ''rolled back'')"
    by code_simp
  have 2: "job_status (fst (start_research_workflow write_fails
                        (one_request ''Quantum Computing'' PENDING) 1)) 1 = Some PROCESSING"
    by code_simp
  have 3: "log_trace (new_logs (one_request ''Quantum Computing'' PENDING)
        (fst (start_research_workflow write_fails
                (one_request ''Quantum Computing'' PENDING) 1)))
       = stalled_trace 4"
    by code_simp
  have 4: "length (articles (fst (start_research_workflow write_fails
                               (one_request ''Quantum Computing'' PENDING) 1))) = 2"
    by code_simp
  from 1 2 3 4 show ?thesis by simp
qed

lemma completed_run:
  assumes r: "get_research_request db rid = Some r"
    and w: "snd (workflow_steps env
                   (fst (update_status db (clock env 0) rid PROCESSING None None)) rid
                   (topic r) (clock env 0)) = Inr fin"
  shows "snd (start_research_workflow env db rid) = Inr fin"
    and "get_research_request (fst (start_research_workflow env db rid)) rid
           = Some (set_status (clock env 14) COMPLETED (Some fin) None
                    (set_status (clock env 0) PROCESSING None None r))"
    and "new_logs db (fst (start_research_workflow env db rid))
           = new_logs (fst (update_status db (clock env 0) rid PROCESSING None None))
               (fst (workflow_steps env
                       (fst (update_status db (clock env 0) rid PROCESSING None None)) rid
                       (topic r) (clock env 0)))"
proof -
  let ?d0 = "fst (update_status db (clock env 0) rid PROCESSING None None)"
  let ?w = "workflow_steps env ?d0 rid (topic r) (clock env 0)"
  let ?r0 = "set_status (clock env 0) PROCESSING None None r"
  have s: "start_research_workflow env db rid
             = (fst (update_status (fst ?w) (clock env 14) rid COMPLETED (Some fin) None), Inr fin)"
    using start_research_workflow_unfold [OF r, of env] w by (simp add: Let_def)
  show "snd (start_research_workflow env db rid) = Inr fin"
    unfolding s by simp
  have "get_research_request ?d0 rid = Some ?r0"
    using r by (rule update_status_lookup)
  then have "get_research_request (fst ?w) rid = Some ?r0"
    by (simp add: get_research_request_def workflow_steps_requests)
  then show "get_research_request (fst (start_research_workflow env db rid)) rid
      = Some (set_status (clock env 14) COMPLETED (Some fin) None ?r0)"
    unfolding s by (simp add: update_status_lookup)
  define es where "es = new_logs ?d0 (fst ?w)"
  have logs: "workflow_logs (fst ?w) = workflow_logs db @ es"
    using workflow_steps_logs [of env ?d0 rid "topic r" "clock env 0"]
    by (simp add: es_def update_status_frame)
  have "drop (length (workflow_logs db)) (workflow_logs (fst ?w)) = es"
    by (simp add: logs)
  then show "new_logs db (fst (start_research_workflow env db rid)) = new_logs ?d0 (fst ?w)"
    unfolding s es_def [symmetric] by (simp add: new_logs_def update_status_frame)
qed

lemma run_raises:
  assumes "get_research_request db rid = Some r"
    and "snd (start_research_workflow env db rid) = Inl e"
  shows "snd (workflow_steps env
                (fst (update_status db (clock env 0) rid PROCESSING None None)) rid
                (topic r) (clock env 0)) = Inl e"
proof (cases "snd (workflow_steps env
                (fst (update_status db (clock env 0) rid PROCESSING None None)) rid
                (topic r) (clock env 0))")
  case (Inl x)
  from run_after_raise(3) [OF assms(1) Inl] assms(2) Inl show ?thesis by simp
next
  case (Inr fin)
  from completed_run(1) [OF assms(1) Inr] assms(2) show ?thesis by simp
qed

subsection \<open>Failure of a run\<close>

text \<open>
  C2 (amended). When a run of \<open>start_research_workflow\<close> on a request of the store ends
  with an exception \<open>e\<close> of some stage \<open>k\<close> that leaves the session of the record store
  usable: the log shows the stages before \<open>k\<close> completed and stage \<open>k\<close> failed, then one
  entry more, written by the handler with status \<open>failed\<close> under the step \<open>RETURN_RESULTS\<close>
  whichever stage failed, with the message of \<open>e\<close>; no later stage has an entry. So the
  log of the run holds one entry under \<open>RETURN_RESULTS\<close>, or two when it is stage 5 that
  failed: its own entry, updated to \<open>failed\<close>, and the entry of the handler. The request
  ends with status \<open>FAILED\<close> and its \<open>completed_at\<close> as it was before the run. Its
  \<open>error_message\<close> is the message of \<open>e\<close> when that message is not empty; an empty
  message leaves \<open>error_message\<close> as it was.
\<close>

theorem workflow_failure_handling:
  "get_research_request db rid = Some r \<and> snd (start_research_workflow env db rid) = Inl e
     \<and> \<not> session_lost e
   \<longrightarrow> job_status (fst (start_research_workflow env db rid)) rid = Some FAILED
     \<and> map_option error_message (get_research_request (fst (start_research_workflow env db rid)) rid)
         = Some (if str_error e = [] then error_message r else Some (str_error e))
     \<and> map_option completed_at (get_research_request (fst (start_research_workflow env db rid)) rid)
         = Some (completed_at r)
     \<and> (\<exists>k \<in> {1, 2, 3, 4, 5}.
           log_trace (new_logs db (fst (start_research_workflow env db rid)))
             = stage_trace k False @ [(RETURN_RESULTS, ''failed'')]
           \<and> length (filter (\<lambda>l. step l = RETURN_RESULTS)
                       (new_logs db (fst (start_research_workflow env db rid))))
               = (if k = 5 then 2 else 1))
     \<and> message (last (new_logs db (fst (start_research_workflow env db rid))))
         = Some (''Workflow failed: '' @ str_error e)
     \<and> (\<forall>l \<in> set (new_logs db (fst (start_research_workflow env db rid))).
           research_request_id l = rid)"
proof
  assume a: "get_research_request db rid = Some r
               \<and> snd (start_research_workflow env db rid) = Inl e \<and> \<not> session_lost e"
  let ?d0 = "fst (update_status db (clock env 0) rid PROCESSING None None)"
  let ?w = "workflow_steps env ?d0 rid (topic r) (clock env 0)"
  let ?db' = "fst (start_research_workflow env db rid)"
  from a have r: "get_research_request db rid = Some r" by simp
  from a have usable: "\<not> session_lost e" by simp
  from a have w: "snd ?w = Inl e" using run_raises by blast
  note run = failed_run [OF r w usable]
  have es: "\<forall>l \<in> set (new_logs ?d0 (fst ?w)). research_request_id l = rid"
    "\<exists>k \<in> {1, 2, 3, 4, 5}. log_trace (new_logs ?d0 (fst ?w)) = stage_trace k False"
    using workflow_steps_new_logs [of ?d0 env rid "topic r" "clock env 0"] w usable by simp_all
  have 1: "job_status ?db' rid = Some FAILED"
    by (simp add: job_status_def run(1) set_status_fields)
  have 2: "map_option error_message (get_research_request ?db' rid)
         = Some (if str_error e = [] then error_message r else Some (str_error e))"
    by (simp add: run(1) set_status_fields truthy_def)
  have 3: "map_option completed_at (get_research_request ?db' rid) = Some (completed_at r)"
    by (simp add: run(1) set_status_fields)
  from es(2) obtain k where k: "k \<in> {1, 2, 3, 4, 5}"
    "log_trace (new_logs ?d0 (fst ?w)) = stage_trace k False"
    by blast
  have t: "log_trace (new_logs db ?db') = stage_trace k False @ [(RETURN_RESULTS, ''failed'')]"
    using k(2) by (simp add: run(2) log_trace_def)
  have "map fst (filter (\<lambda>p. fst p = RETURN_RESULTS) (log_trace (new_logs db ?db')))
          = map step (filter (\<lambda>l. step l = RETURN_RESULTS) (new_logs db ?db'))"
    by (simp add: log_trace_def filter_map comp_def)
  then have "length (filter (\<lambda>l. step l = RETURN_RESULTS) (new_logs db ?db'))
          = length (filter (\<lambda>p. fst p = RETURN_RESULTS) (log_trace (new_logs db ?db')))"
    using length_map by metis
  also have "\<dots> = (if k = 5 then 2 else 1)"
    unfolding t using k(1) by (auto simp: stage_traces)
  finally have 4: "\<exists>k \<in> {1, 2, 3, 4, 5}.
           log_trace (new_logs db ?db') = stage_trace k False @ [(RETURN_RESULTS, ''failed'')]
           \<and> length (filter (\<lambda>l. step l = RETURN_RESULTS) (new_logs db ?db'))
               = (if k = 5 then 2 else 1)"
    using k(1) t by blast
  have 5: "message (last (new_logs db ?db')) = Some (''Workflow failed: '' @ str_error e)"
    by (simp add: run(2))
  have 6: "\<forall>l \<in> set (new_logs db ?db'). research_request_id l = rid"
    using es(1) by (simp add: run(2))
  from 1 2 3 4 5 6 show "job_status ?db' rid = Some FAILED
     \<and> map_option error_message (get_research_request ?db' rid)
         = Some (if str_error e = [] then error_message r else Some (str_error e))
     \<and> map_option completed_at (get_research_request ?db' rid) = Some (completed_at r)
     \<and> (\<exists>k \<in> {1, 2, 3, 4, 5}.
           log_trace (new_logs db ?db') = stage_trace k False @ [(RETURN_RESULTS, ''failed'')]
           \<and> length (filter (\<lambda>l. step l = RETURN_RESULTS) (new_logs db ?db'))
               = (if k = 5 then 2 else 1))
     \<and> message (last (new_logs db ?db')) = Some (''Workflow failed: '' @ str_error e)
     \<and> (\<forall>l \<in> set (new_logs db ?db'). research_request_id l = rid)"
    by blast
qed

text \<open>
  A run that finds five articles and meets an exception in stage 4, after two of them
  are saved.
\<close>

theorem workflow_failure_handling_witness:
  "get_research_request (one_request ''Quantum Computing'' PENDING) 1 \<noteq> None
   \<and> snd (start_research_workflow stage4_raises (one_request ''Quantum Computing'' PENDING) 1)
       = Inl (Exception ''time limit exceeded'')
   \<and> session_lost (Exception ''time limit exceeded'') = False
   \<and> job_status (fst (start_research_workflow stage4_raises
                        (one_request ''Quantum Computing'' PENDING) 1)) 1 = Some FAILED
   \<and> map_option error_message
       (get_research_request (fst (start_research_workflow stage4_raises
                                     (one_request ''Quantum Computing'' PENDING) 1)) 1)
       = Some (Some ''time limit exceeded'')
   \<and> map_option completed_at
       (get_research_request (fst (start_research_workflow stage4_raises
                                     (one_request ''Quantum Computing'' PENDING) 1)) 1)
       = Some None
   \<and> log_trace (new_logs (one_request ''Quantum Computing'' PENDING)
        (fst (start_research_workflow stage4_raises
                (one_request ''Quantum Computing'' PENDING) 1)))
       = stage_trace 4 False @ [(RETURN_RESULTS, ''failed'')]"
proof -
  let ?r = "\<lparr>request_id = 1, topic = ''Quantum Computing'', status = PENDING, task_id = None,
             created_at = 0, updated_at = None, completed_at = None, results = None,
             error_message = None\<rparr>"
  have 1: "get_research_request (one_request ''Quantum Computing'' PENDING) 1 = Some ?r"
    by (simp add: get_research_request_def one_request_def)
  have 2: "snd (start_research_workflow stage4_raises
                  (one_request ''Quantum Computing'' PENDING) 1)
             = Inl (Exception ''time limit exceeded'')"
    by code_simp
  have 3: "log_trace (new_logs (one_request ''Quantum Computing'' PENDING)
        (fst (start_research_workflow stage4_raises
                (one_request ''Quantum Computing'' PENDING) 1)))
       = stage_trace 4 False @ [(RETURN_RESULTS, ''failed'')]"
    by code_simp
  have 4: "session_lost (Exception ''time limit exceeded'') = False"
    by (simp add: session_lost_def)
  show ?thesis
    using workflow_failure_handling [of "one_request ''Quantum Computing'' PENDING" 1 ?r
        stage4_raises "Exception ''time limit exceeded''"] 1 2 3 4
    by simp
qed

text \<open>
  An exception that carries no message, raised in stage 2: the request ends failed, and
  its \<open>error_message\<close> is still unset, since \<open>update_status\<close> stores a message only when it
  is not empty. An exception raised in stage 5: the log of the run ends with two failed
  entries under \<open>RETURN_RESULTS\<close>, the entry of the stage and the entry of the handler.
\<close>

theorem workflow_failure_empty_message_counterexample:
  "snd (start_research_workflow silent_fault (one_request ''Quantum Computing'' PENDING) 1)
     = Inl (Exception [])
   \<and> str_error (Exception []) = []
   \<and> job_status (fst (start_research_workflow silent_fault
                        (one_request ''Quantum Computing'' PENDING) 1)) 1 = Some FAILED
   \<and> map_option error_message
       (get_research_request (fst (start_research_workflow silent_fault
                                     (one_request ''Quantum Computing'' PENDING) 1)) 1)
       = Some None
   \<and> snd (start_research_workflow stage5_raises (one_request ''Quantum Computing'' PENDING) 1)
       = Inl (Exception ''time limit exceeded'')
   \<and> drop 4 (log_trace (new_logs (one_request ''Quantum Computing'' PENDING)
        (fst (start_research_workflow stage5_raises
                (one_request ''Quantum Computing'' PENDING) 1))))
       = [(RETURN_RESULTS, ''failed''), (RETURN_RESULTS, ''failed'')]"
proof -
  have 1: "snd (start_research_workflow silent_fault (one_request ''Quantum Computing'' PENDING) 1)
     = Inl (Exception [])"
    by code_simp
  have 2: "job_status (fst (start_research_workflow silent_fault
                        (one_request ''Quantum Computing'' PENDING) 1)) 1 = Some FAILED"
    by code_simp
  have 3: "map_option error_message
       (get_research_request (fst (start_research_workflow silent_fault
                                     (one_request ''Quantum Computing'' PENDING) 1)) 1)
       = Some None"
    by code_simp
  have 4: "snd (start_research_workflow stage5_raises
                  (one_request ''Quantum Computing'' PENDING) 1)
       = Inl (Exception ''time limit exceeded'')"
    by code_simp
  have 5: "drop 4 (log_trace (new_logs (one_request ''Quantum Computing'' PENDING)
        (fst (start_research_workflow stage5_raises
                (one_request ''Quantum Computing'' PENDING) 1))))
       = [(RETURN_RESULTS, ''failed''), (RETURN_RESULTS, ''failed'')]"
    by code_simp
  from 1 2 3 4 5 show ?thesis by simp
qed

subsection \<open>Stage 1: input parsing\<close>

lemma stage_requests:
  "research_requests (fst (execute_input_parsing env db rid t)) = research_requests db"
  "research_requests (fst (execute_data_gathering env db rid t)) = research_requests db"
  "research_requests (fst (execute_processing env db rid xs)) = research_requests db"
  "research_requests (fst (execute_result_persistence env db rid p)) = research_requests db"
  "research_requests (fst (execute_return_results env db rid q ws)) = research_requests db"
  using execute_input_parsing_effect [of db env rid t]
    execute_data_gathering_effect [of db env rid t]
    execute_processing_effect [of db env rid xs]
    execute_result_persistence_effect [of db env rid p]
    execute_return_results_effect [of db env rid q ws]
  by (auto simp: extends_logs_def)

lemma validate_topic_cases:
  "length (strip t) < 3
     \<Longrightarrow> validate_topic env t = Inl (ValueError ''Topic must be at least 3 characters long'')"
  "3 \<le> length (strip t) \<Longrightarrow> 500 < length t
     \<Longrightarrow> validate_topic env t = Inl (ValueError ''Topic must be less than 500 characters'')"
  "3 \<le> length (strip t) \<Longrightarrow> length t \<le> 500 \<Longrightarrow> fault env INPUT_PARSING = None
     \<Longrightarrow> validate_topic env t
           = Inr \<lparr>original_topic = t, cleaned_topic = strip t,
                  topic_length = length (strip t), validation_passed = True\<rparr>"
  by (auto simp: validate_topic_def strip_def)

lemma execute_input_parsing_trace:
  "log_trace (new_logs db (fst (execute_input_parsing env db rid t)))
     = [(INPUT_PARSING,
         case validate_topic env t of
           Inl x \<Rightarrow> if session_lost x then ''started'' else ''failed''
         | Inr r \<Rightarrow> ''completed'')]"
  using execute_input_parsing_effect [of db env rid t]
  by (auto simp: extends_logs_def new_logs_def log_trace_def)

lemma steps_stop_at_validation:
  "validate_topic env t = Inl e
     \<Longrightarrow> workflow_steps env d rid t ws = (fst (execute_input_parsing env d rid t), Inl e)"
  by (simp add: workflow_steps_unfold)

text \<open>
  C1 (amended). Stage 1 compares the trimmed length with 3 and the untrimmed length with
  500. For every topic \<open>t\<close> with \<open>3 \<le> len(trim t)\<close> and \<open>len(t) \<le> 500\<close>, and with no fault
  of a collaborator in the stage, \<open>execute_input_parsing\<close> succeeds, its \<open>cleaned_topic\<close> is
  \<open>trim t\<close>, and its log entry is completed. For \<open>len(trim t) < 3\<close> it raises the
  validation error and its log entry is failed; a run of the workflow on a request with
  such a topic ends with that error and the request in status \<open>FAILED\<close>. A topic with
  \<open>3 \<le> len(trim t)\<close> and \<open>len(t) > 500\<close> is rejected with the second validation error.
\<close>

theorem input_parsing_contract:
  "(3 \<le> length (strip t) \<and> length t \<le> 500 \<and> fault env INPUT_PARSING = None \<longrightarrow>
      snd (execute_input_parsing env db rid t)
        = Inr \<lparr>original_topic = t, cleaned_topic = strip t,
               topic_length = length (strip t), validation_passed = True\<rparr>
      \<and> log_trace (new_logs db (fst (execute_input_parsing env db rid t)))
          = [(INPUT_PARSING, ''completed'')])
   \<and> (length (strip t) < 3 \<longrightarrow>
      snd (execute_input_parsing env db rid t)
        = Inl (ValueError ''Topic must be at least 3 characters long'')
      \<and> log_trace (new_logs db (fst (execute_input_parsing env db rid t)))
          = [(INPUT_PARSING, ''failed'')])
   \<and> (3 \<le> length (strip t) \<and> 500 < length t \<longrightarrow>
      snd (execute_input_parsing env db rid t)
        = Inl (ValueError ''Topic must be less than 500 characters'')
      \<and> log_trace (new_logs db (fst (execute_input_parsing env db rid t)))
          = [(INPUT_PARSING, ''failed'')])
   \<and> (get_research_request db rid = Some r \<and> length (strip (topic r)) < 3 \<longrightarrow>
      snd (start_research_workflow env db rid)
        = Inl (ValueError ''Topic must be at least 3 characters long'')
      \<and> job_status (fst (start_research_workflow env db rid)) rid = Some FAILED
      \<and> log_trace (new_logs db (fst (start_research_workflow env db rid)))
          = [(INPUT_PARSING, ''failed''), (RETURN_RESULTS, ''failed'')])"
proof -
  have a: "3 \<le> length (strip t) \<and> length t \<le> 500 \<and> fault env INPUT_PARSING = None \<longrightarrow>
      snd (execute_input_parsing env db rid t)
        = Inr \<lparr>original_topic = t, cleaned_topic = strip t,
               topic_length = length (strip t), validation_passed = True\<rparr>
      \<and> log_trace (new_logs db (fst (execute_input_parsing env db rid t)))
          = [(INPUT_PARSING, ''completed'')]"
    by (simp add: execute_input_parsing_result execute_input_parsing_trace validate_topic_cases
          session_lost_def)
  have b: "length (strip t) < 3 \<longrightarrow>
      snd (execute_input_parsing env db rid t)
        = Inl (ValueError ''Topic must be at least 3 characters long'')
      \<and> log_trace (new_logs db (fst (execute_input_parsing env db rid t)))
          = [(INPUT_PARSING, ''failed'')]"
    by (simp add: execute_input_parsing_result execute_input_parsing_trace validate_topic_cases
          session_lost_def)
  have c: "3 \<le> length (strip t) \<and> 500 < length t \<longrightarrow>
      snd (execute_input_parsing env db rid t)
        = Inl (ValueError ''Topic must be less than 500 characters'')
      \<and> log_trace (new_logs db (fst (execute_input_parsing env db rid t)))
          = [(INPUT_PARSING, ''failed'')]"
    by (simp add: execute_input_parsing_result execute_input_parsing_trace validate_topic_cases
          session_lost_def)
  have d: "get_research_request db rid = Some r \<and> length (strip (topic r)) < 3 \<longrightarrow>
      snd (start_research_workflow env db rid)
        = Inl (ValueError ''Topic must be at least 3 characters long'')
      \<and> job_status (fst (start_research_workflow env db rid)) rid = Some FAILED
      \<and> log_trace (new_logs db (fst (start_research_workflow env db rid)))
          = [(INPUT_PARSING, ''failed''), (RETURN_RESULTS, ''failed'')]"
  proof
    assume h: "get_research_request db rid = Some r \<and> length (strip (topic r)) < 3"
    let ?e = "ValueError ''Topic must be at least 3 characters long''"
    let ?d0 = "fst (update_status db (clock env 0) rid PROCESSING None None)"
    have v: "validate_topic env (topic r) = Inl ?e"
      using h by (simp add: validate_topic_cases)
    have w: "workflow_steps env ?d0 rid (topic r) (clock env 0)
               = (fst (execute_input_parsing env ?d0 rid (topic r)), Inl ?e)"
      using v by (rule steps_stop_at_validation)
    from h have r: "get_research_request db rid = Some r" by simp
    have w2: "snd (workflow_steps env ?d0 rid (topic r) (clock env 0)) = Inl ?e"
      by (simp add: w)
    have usable: "\<not> session_lost ?e"
      by (simp add: session_lost_def)
    note run = failed_run [OF r w2 usable]
    have "log_trace (new_logs ?d0 (fst (execute_input_parsing env ?d0 rid (topic r))))
            = [(INPUT_PARSING, ''failed'')]"
      by (simp add: execute_input_parsing_trace v session_lost_def)
    then have "log_trace (new_logs db (fst (start_research_workflow env db rid)))
          = [(INPUT_PARSING, ''failed''), (RETURN_RESULTS, ''failed'')]"
      unfolding run(2) w by (simp add: log_trace_def)
    moreover have "job_status (fst (start_research_workflow env db rid)) rid = Some FAILED"
      by (simp add: job_status_def run(1) set_status_fields)
    ultimately show "snd (start_research_workflow env db rid) = Inl ?e
      \<and> job_status (fst (start_research_workflow env db rid)) rid = Some FAILED
      \<and> log_trace (new_logs db (fst (start_research_workflow env db rid)))
          = [(INPUT_PARSING, ''failed''), (RETURN_RESULTS, ''failed'')]"
      using run_after_raise(3) [OF r w2] by blast
  qed
  from a b c d show ?thesis by blast
qed

lemma dropWhile_spaces:
  "dropWhile isspace (replicate n (CHR '' '') @ ys) = dropWhile isspace ys"
  by (induction n) (simp_all add: isspace_def)

lemma strip_padded_topic: "strip padded_topic = ''abc''"
proof -
  have "dropWhile isspace (replicate 498 (CHR '' '') @ ''cba'') = ''cba''"
    unfolding dropWhile_spaces by (simp add: isspace_def)
  then show ?thesis
    by (simp add: strip_def padded_topic_def isspace_def)
qed

text \<open>
  Three letters and 498 spaces: the trimmed length is 3, within 3 to 500, and stage 1
  fails, since the untrimmed length is 501.
\<close>

theorem input_parsing_padded_counterexample:
  "3 \<le> length (strip padded_topic) \<and> length (strip padded_topic) \<le> 500
   \<and> snd (execute_input_parsing quiet empty_store 1 padded_topic)
       = Inl (ValueError ''Topic must be less than 500 characters'')"
proof -
  have "length padded_topic = 501" "padded_topic \<noteq> []"
    by (simp_all add: padded_topic_def)
  then have "validate_topic quiet padded_topic
               = Inl (ValueError ''Topic must be less than 500 characters'')"
    by (simp add: validate_topic_def strip_padded_topic)
  then show ?thesis
    by (simp add: execute_input_parsing_result strip_padded_topic)
qed

theorem input_parsing_contract_witness:
  "strip ''  Quantum Computing '' = ''Quantum Computing''
   \<and> snd (execute_input_parsing quiet empty_store 1 ''  Quantum Computing '')
       = Inr \<lparr>original_topic = ''  Quantum Computing '', cleaned_topic = ''Quantum Computing'',
              topic_length = 17, validation_passed = True\<rparr>
   \<and> length (strip '' ab '') = 2
   \<and> snd (execute_input_parsing quiet empty_store 1 '' ab '')
       = Inl (ValueError ''Topic must be at least 3 characters long'')
   \<and> length (strip padded_topic) = 3 \<and> length padded_topic = 501
   \<and> snd (execute_input_parsing quiet empty_store 1 padded_topic)
       = Inl (ValueError ''Topic must be less than 500 characters'')
   \<and> topic (the (get_research_request (one_request '' ab '' PENDING) 1)) = '' ab ''
   \<and> job_status (fst (start_research_workflow quiet (one_request '' ab '' PENDING) 1)) 1
       = Some FAILED"
proof -
  have 1: "strip ''  Quantum Computing '' = ''Quantum Computing''" by code_simp
  have 2: "length (strip '' ab '') = 2" by code_simp
  have 3: "length (strip padded_topic) = 3" "length padded_topic = 501"
    by (simp_all add: strip_padded_topic) (simp add: padded_topic_def)
  have 4: "fault quiet INPUT_PARSING = None" by (simp add: quiet_def)
  have 5: "get_research_request (one_request '' ab '' PENDING) 1
             = Some \<lparr>request_id = 1, topic = '' ab '', status = PENDING, task_id = None,
                     created_at = 0, updated_at = None, completed_at = None, results = None,
                     error_message = None\<rparr>"
    by (simp add: get_research_request_def one_request_def)
  show ?thesis
    using input_parsing_contract [of "''  Quantum Computing ''" quiet empty_store 1]
      input_parsing_contract [of "'' ab ''" quiet empty_store 1
        "\<lparr>request_id = 1, topic = '' ab '', status = PENDING, task_id = None,
          created_at = 0, updated_at = None, completed_at = None, results = None,
          error_message = None\<rparr>"]
      input_parsing_contract [of padded_topic quiet empty_store 1]
      input_parsing_contract [of "'' ab ''" quiet "one_request '' ab '' PENDING" 1
        "\<lparr>request_id = 1, topic = '' ab '', status = PENDING, task_id = None,
          created_at = 0, updated_at = None, completed_at = None, results = None,
          error_message = None\<rparr>"]
      1 2 3 4 5
    by simp
qed

subsection \<open>Stage 3: processing\<close>

lemma keyword_freq_counted: "fold (\<lambda>keyword d. dict_incr d keyword) ws [] = counted (\<lambda>w. True) ws"
  by (simp add: counted_def)

lemma process_articles_fields:
  "proc_keywords (process_articles xs)
     = map fst (take 10 (sorted_by_count_desc
         (counted (\<lambda>w. True) (concat (map keyword_list (take 5 xs))))))"
  "proc_summary (process_articles xs)
     = take 1000 (join '' '' (filter (\<lambda>s. s \<noteq> []) (map summary (take 5 xs))))"
  "proc_sources (process_articles xs) = set (map source (take 5 xs))"
  "proc_top_articles (process_articles xs) = take 5 xs"
  "total_articles_processed (process_articles xs) = length xs"
  by (simp_all add: process_articles_def Let_def keyword_freq_counted)

text \<open>
  C8 (amended). With no fault of a collaborator in the stage, \<open>execute_processing\<close> returns
  the result computed from the first five candidates. Its keyword list merges their
  keyword lists, counts each keyword across them, and keeps the 10 most frequent in order
  of descending count (ties in the order in which the keywords are first seen in the
  merged list). Its summary joins with single spaces the summaries of those candidates
  that are not empty, cut at 1000 characters: a candidate with an empty summary adds
  nothing, not even a separator. Its sources are the distinct sources of those candidates.
\<close>

theorem execute_processing_contract:
  "fault env STEP_PROCESSING = None \<longrightarrow>
     snd (execute_processing env db rid xs) = Inr (process_articles xs)
     \<and> length (proc_keywords (process_articles xs)) \<le> 10
     \<and> set (proc_keywords (process_articles xs)) \<subseteq> set (concat (map keyword_list (take 5 xs)))
     \<and> sorted_wrt (ranks_before (concat (map keyword_list (take 5 xs))))
          (proc_keywords (process_articles xs))
     \<and> length (proc_keywords (process_articles xs))
          = min 10 (card (set (concat (map keyword_list (take 5 xs)))))
     \<and> (\<forall>w \<in> set (concat (map keyword_list (take 5 xs))).
         \<forall>k \<in> set (proc_keywords (process_articles xs)).
           w \<notin> set (proc_keywords (process_articles xs))
             \<longrightarrow> ranks_before (concat (map keyword_list (take 5 xs))) k w)
     \<and> proc_summary (process_articles xs)
          = take 1000 (join '' '' (filter (\<lambda>s. s \<noteq> []) (map summary (take 5 xs))))
     \<and> proc_sources (process_articles xs) = set (map source (take 5 xs))"
proof
  assume f: "fault env STEP_PROCESSING = None"
  let ?m = "concat (map keyword_list (take 5 xs))"
  let ?k = "proc_keywords (process_articles xs)"
  have k: "?k = map fst (take 10 (sorted_by_count_desc (counted (\<lambda>w. True) ?m)))"
    by (rule process_articles_fields)
  have 1: "snd (execute_processing env db rid xs) = Inr (process_articles xs)"
    using f by (simp add: execute_processing_result)
  have all: "{w \<in> set ?m. True} = set ?m" by (simp only: simp_thms Collect_mem_eq)
  have 2: "length ?k = min 10 (card (set ?m))"
    unfolding k top_counted_length all by (rule refl)
  then have 3: "length ?k \<le> 10" by simp
  have 4: "set ?k \<subseteq> set ?m"
    unfolding k using top_counted_subset [of 10 "\<lambda>w. True" ?m] unfolding all .
  have 5: "sorted_wrt (ranks_before ?m) ?k"
    unfolding k by (rule top_counted_ranked)
  have 6: "\<forall>w \<in> set ?m. \<forall>k \<in> set ?k. w \<notin> set ?k \<longrightarrow> ranks_before ?m k w"
    unfolding k using top_counted_left_out [of _ ?m "\<lambda>w. True" 10] by blast
  from 1 2 3 4 5 6 show "snd (execute_processing env db rid xs) = Inr (process_articles xs)
     \<and> length ?k \<le> 10 \<and> set ?k \<subseteq> set ?m \<and> sorted_wrt (ranks_before ?m) ?k
     \<and> length ?k = min 10 (card (set ?m))
     \<and> (\<forall>w \<in> set ?m. \<forall>k \<in> set ?k. w \<notin> set ?k \<longrightarrow> ranks_before ?m k w)
     \<and> proc_summary (process_articles xs)
          = take 1000 (join '' '' (filter (\<lambda>s. s \<noteq> []) (map summary (take 5 xs))))
     \<and> proc_sources (process_articles xs) = set (map source (take 5 xs))"
    by (simp add: process_articles_fields(2,3))
qed

theorem execute_processing_contract_witness:
  "fault quiet STEP_PROCESSING = None
   \<and> map_sum id proc_keywords
       (snd (execute_processing quiet empty_store 1
          [tagged (item ''A'' ''wikipedia'' ''First.'' 80)
             [''data'', ''code'', ''test'', ''file'', ''word'', ''list''],
           tagged (item ''B'' ''hackernews'' [] 50)
             [''tree'', ''node'', ''edge'', ''path'', ''loop'', ''data''],
           tagged (item ''C'' ''wikipedia'' ''Third.'' 40) [''code'', ''data'']]))
       = Inr [''data'', ''code'', ''test'', ''file'', ''word'', ''list'', ''tree'', ''node'',
              ''edge'', ''path'']
   \<and> map_sum id proc_summary
       (snd (execute_processing quiet empty_store 1
          [tagged (item ''A'' ''wikipedia'' ''First.'' 80)
             [''data'', ''code'', ''test'', ''file'', ''word'', ''list''],
           tagged (item ''B'' ''hackernews'' [] 50)
             [''tree'', ''node'', ''edge'', ''path'', ''loop'', ''data''],
           tagged (item ''C'' ''wikipedia'' ''Third.'' 40) [''code'', ''data'']]))
       = Inr ''First. Third.''
   \<and> ranks_before
        (concat (map keyword_list (take 5
          [tagged (item ''A'' ''wikipedia'' ''First.'' 80)
             [''data'', ''code'', ''test'', ''file'', ''word'', ''list''],
           tagged (item ''B'' ''hackernews'' [] 50)
             [''tree'', ''node'', ''edge'', ''path'', ''loop'', ''data''],
           tagged (item ''C'' ''wikipedia'' ''Third.'' 40) [''code'', ''data'']])))
        ''path'' ''loop''"
proof -
  let ?xs = "[tagged (item ''A'' ''wikipedia'' ''First.'' 80)
             [''data'', ''code'', ''test'', ''file'', ''word'', ''list''],
           tagged (item ''B'' ''hackernews'' [] 50)
             [''tree'', ''node'', ''edge'', ''path'', ''loop'', ''data''],
           tagged (item ''C'' ''wikipedia'' ''Third.'' 40) [''code'', ''data'']]"
  have f: "fault quiet STEP_PROCESSING = None" by (simp add: quiet_def)
  have k: "proc_keywords (process_articles ?xs)
             = [''data'', ''code'', ''test'', ''file'', ''word'', ''list'', ''tree'', ''node'',
                ''edge'', ''path'']"
    by code_simp
  have s: "proc_summary (process_articles ?xs) = ''First. Third.''"
    by code_simp
  have m: "''loop'' \<in> set (concat (map keyword_list (take 5 ?xs)))"
    by (simp add: tagged_def item_def)
  have o: "''loop'' \<notin> set (proc_keywords (process_articles ?xs))"
    "''path'' \<in> set (proc_keywords (process_articles ?xs))"
    unfolding k by simp_all
  have r: "ranks_before (concat (map keyword_list (take 5 ?xs))) ''path'' ''loop''"
    using execute_processing_contract [of quiet empty_store 1 ?xs] f m o by blast
  show ?thesis
    using execute_processing_contract [of quiet empty_store 1 ?xs] f k s r by simp
qed

text \<open>
  Two candidates, the first with an empty summary: joining the per-article summaries with
  a single space gives \<open>" Second."\<close>; the stage returns \<open>"Second."\<close>.
\<close>

theorem execute_processing_summary_counterexample:
  "map_sum id proc_summary
     (snd (execute_processing quiet empty_store 1
        [item ''A'' ''hackernews'' [] 90, item ''B'' ''wikipedia'' ''Second.'' 80]))
     = Inr ''Second.''
   \<and> take 1000 (join '' ''
        (map summary [item ''A'' ''hackernews'' [] 90, item ''B'' ''wikipedia'' ''Second.'' 80]))
     = '' Second.''"
proof -
  have "fault quiet STEP_PROCESSING = None" by (simp add: quiet_def)
  then show ?thesis
    by (simp add: execute_processing_result process_articles_fields item_def join_def)
qed

subsection \<open>A run that finds nothing\<close>

lemma gather_nothing:
  "or_empty (search_articles env t 3) = [] \<Longrightarrow> or_empty (search_stories env t 2) = []
     \<Longrightarrow> gather_research_data env t = []"
  by (simp add: gather_research_data_def all_articles_def sort_by_relevance_def)

lemma steps_complete:
  assumes v: "validate_topic env t = Inr r1" and f: "\<forall>s. fault env s = None"
    and q: "find (\<lambda>x. request_id x = rid) (research_requests d) = Some r0"
  shows "map_sum id total_articles_found (snd (workflow_steps env d rid t ws))
           = Inr (length (gather_research_data env t))"
    and "map_sum id res_topic (snd (workflow_steps env d rid t ws)) = Inr (topic r0)"
  using v f q
  by (simp_all add: workflow_steps_unfold Let_def execute_return_results_result
        prepare_results_def get_research_request_detail_def create_workflow_log_store
        stage_requests process_articles_fields)

text \<open>
  C4 (amended). When every provider call fails or returns no items,
  \<open>gather_research_data\<close> returns the empty list, whatever the topic. When moreover the
  topic of the request passes the validation of stage 1 (\<open>3 \<le> len(trim t)\<close> and
  \<open>len(t) \<le> 500\<close>) and no collaborator raises inside a stage, the run of the workflow goes
  through all five stages, each completed, and ends with the request in status
  \<open>COMPLETED\<close>, its results stored, and \<open>total_articles_found = 0\<close> in them.
\<close>

theorem empty_gather_completes:
  "(or_empty (search_articles env t 3) = [] \<and> or_empty (search_stories env t 2) = []
      \<longrightarrow> gather_research_data env t = [])
   \<and> (get_research_request db rid = Some r
       \<and> 3 \<le> length (strip (topic r)) \<and> length (topic r) \<le> 500
       \<and> or_empty (search_articles env (topic r) 3) = []
       \<and> or_empty (search_stories env (topic r) 2) = []
       \<and> (\<forall>s. fault env s = None)
      \<longrightarrow> map_sum id total_articles_found (snd (start_research_workflow env db rid)) = Inr 0
        \<and> map_sum id res_topic (snd (start_research_workflow env db rid)) = Inr (topic r)
        \<and> job_status (fst (start_research_workflow env db rid)) rid = Some COMPLETED
        \<and> map_option results (get_research_request (fst (start_research_workflow env db rid)) rid)
            = Some (case snd (start_research_workflow env db rid) of
                      Inl e \<Rightarrow> None | Inr fin \<Rightarrow> Some fin)
        \<and> log_trace (new_logs db (fst (start_research_workflow env db rid)))
            = stage_trace 5 True)"
proof -
  have a: "or_empty (search_articles env t 3) = [] \<and> or_empty (search_stories env t 2) = []
      \<longrightarrow> gather_research_data env t = []"
    by (simp add: gather_nothing)
  have b: "get_research_request db rid = Some r
       \<and> 3 \<le> length (strip (topic r)) \<and> length (topic r) \<le> 500
       \<and> or_empty (search_articles env (topic r) 3) = []
       \<and> or_empty (search_stories env (topic r) 2) = []
       \<and> (\<forall>s. fault env s = None)
      \<longrightarrow> map_sum id total_articles_found (snd (start_research_workflow env db rid)) = Inr 0
        \<and> map_sum id res_topic (snd (start_research_workflow env db rid)) = Inr (topic r)
        \<and> job_status (fst (start_research_workflow env db rid)) rid = Some COMPLETED
        \<and> map_option results (get_research_request (fst (start_research_workflow env db rid)) rid)
            = Some (case snd (start_research_workflow env db rid) of
                      Inl e \<Rightarrow> None | Inr fin \<Rightarrow> Some fin)
        \<and> log_trace (new_logs db (fst (start_research_workflow env db rid)))
            = stage_trace 5 True"
  proof
    assume h: "get_research_request db rid = Some r
       \<and> 3 \<le> length (strip (topic r)) \<and> length (topic r) \<le> 500
       \<and> or_empty (search_articles env (topic r) 3) = []
       \<and> or_empty (search_stories env (topic r) 2) = []
       \<and> (\<forall>s. fault env s = None)"
    let ?d0 = "fst (update_status db (clock env 0) rid PROCESSING None None)"
    let ?w = "workflow_steps env ?d0 rid (topic r) (clock env 0)"
    let ?r0 = "set_status (clock env 0) PROCESSING None None r"
    let ?db' = "fst (start_research_workflow env db rid)"
    from h have r: "get_research_request db rid = Some r" by simp
    from h have f: "\<forall>s. fault env s = None" by simp
    have v: "validate_topic env (topic r)
           = Inr \<lparr>original_topic = topic r, cleaned_topic = strip (topic r),
                  topic_length = length (strip (topic r)), validation_passed = True\<rparr>"
      using h by (simp add: validate_topic_cases)
    have g: "gather_research_data env (topic r) = []"
      using h by (simp add: gather_nothing)
    have "get_research_request ?d0 rid = Some ?r0"
      using r by (rule update_status_lookup)
    then have q: "find (\<lambda>x. request_id x = rid) (research_requests ?d0) = Some ?r0"
      by (simp add: get_research_request_def)
    note sc = steps_complete [OF v f q, of "clock env 0"]
    obtain fin where fin: "snd ?w = Inr fin" "total_articles_found fin = 0"
      "res_topic fin = topic r"
      using sc by (cases "snd ?w") (simp_all add: g set_status_fields)
    note run = completed_run [OF r fin(1)]
    have "log_trace (new_logs ?d0 (fst ?w)) = stage_trace 5 True"
      using workflow_steps_new_logs [of ?d0 env rid "topic r" "clock env 0"] fin(1) by simp
    then have t: "log_trace (new_logs db ?db') = stage_trace 5 True"
      by (simp add: run(3))
    have s: "job_status ?db' rid = Some COMPLETED"
      by (simp add: job_status_def run(2) set_status_fields)
    have st: "map_option results (get_research_request ?db' rid) = Some (Some fin)"
      by (simp add: run(2) set_status_fields)
    show "map_sum id total_articles_found (snd (start_research_workflow env db rid)) = Inr 0
        \<and> map_sum id res_topic (snd (start_research_workflow env db rid)) = Inr (topic r)
        \<and> job_status ?db' rid = Some COMPLETED
        \<and> map_option results (get_research_request ?db' rid)
            = Some (case snd (start_research_workflow env db rid) of
                      Inl e \<Rightarrow> None | Inr fin \<Rightarrow> Some fin)
        \<and> log_trace (new_logs db ?db') = stage_trace 5 True"
      using s st t fin(2,3) by (simp add: run(1))
  qed
  from a b show ?thesis by blast
qed

theorem empty_gather_completes_witness:
  "get_research_request (one_request ''Quantum Computing'' PENDING) 1 \<noteq> None
   \<and> length (strip ''Quantum Computing'') = 17
   \<and> gather_research_data quiet ''Quantum Computing'' = []
   \<and> map_sum id total_articles_found
       (snd (start_research_workflow quiet (one_request ''Quantum Computing'' PENDING) 1)) = Inr 0
   \<and> job_status (fst (start_research_workflow quiet (one_request ''Quantum Computing'' PENDING) 1)) 1
       = Some COMPLETED
   \<and> log_trace (new_logs (one_request ''Quantum Computing'' PENDING)
        (fst (start_research_workflow quiet (one_request ''Quantum Computing'' PENDING) 1)))
       = stage_trace 5 True"
proof -
  let ?r = "\<lparr>request_id = 1, topic = ''Quantum Computing'', status = PENDING, task_id = None,
             created_at = 0, updated_at = None, completed_at = None, results = None,
             error_message = None\<rparr>"
  have 1: "get_research_request (one_request ''Quantum Computing'' PENDING) 1 = Some ?r"
    by (simp add: get_research_request_def one_request_def)
  have 2: "length (strip ''Quantum Computing'') = 17" by code_simp
  have 3: "or_empty (search_articles quiet ''Quantum Computing'' 3) = []"
    "or_empty (search_stories quiet ''Quantum Computing'' 2) = []" "\<forall>s. fault quiet s = None"
    by (simp_all add: quiet_def or_empty_def)
  show ?thesis
    using empty_gather_completes [of quiet "''Quantum Computing''"
        "one_request ''Quantum Computing'' PENDING" 1 ?r] 1 2 3
    by simp
qed

text \<open>
  The topic \<open>"ab"\<close> with providers that return nothing: the aggregator is never reached,
  the run stops in stage 1 and the request ends in status \<open>FAILED\<close>.
\<close>

theorem empty_gather_short_topic_counterexample:
  "or_empty (search_articles quiet ''ab'' 3) = [] \<and> or_empty (search_stories quiet ''ab'' 2) = []
   \<and> gather_research_data quiet ''ab'' = []
   \<and> snd (start_research_workflow quiet (one_request ''ab'' PENDING) 1)
       = Inl (ValueError ''Topic must be at least 3 characters long'')
   \<and> job_status (fst (start_research_workflow quiet (one_request ''ab'' PENDING) 1)) 1
       = Some FAILED
   \<and> log_trace (new_logs (one_request ''ab'' PENDING)
        (fst (start_research_workflow quiet (one_request ''ab'' PENDING) 1)))
       = [(INPUT_PARSING, ''failed''), (RETURN_RESULTS, ''failed'')]"
proof -
  have 1: "or_empty (search_articles quiet ''ab'' 3) = []"
    "or_empty (search_stories quiet ''ab'' 2) = []"
    by (simp_all add: quiet_def or_empty_def)
  have 2: "snd (start_research_workflow quiet (one_request ''ab'' PENDING) 1)
       = Inl (ValueError ''Topic must be at least 3 characters long'')"
    by code_simp
  have 3: "job_status (fst (start_research_workflow quiet (one_request ''ab'' PENDING) 1)) 1
       = Some FAILED"
    by code_simp
  have 4: "log_trace (new_logs (one_request ''ab'' PENDING)
        (fst (start_research_workflow quiet (one_request ''ab'' PENDING) 1)))
       = [(INPUT_PARSING, ''failed''), (RETURN_RESULTS, ''failed'')]"
    by code_simp
  from 1 2 3 4 show ?thesis by (simp add: gather_nothing)
qed

subsection \<open>The status of a request\<close>

lemma find_snoc:
  "find P (xs @ [y]) = (case find P xs of None \<Rightarrow> (if P y then Some y else None) | Some x \<Rightarrow> Some x)"
  by (induction xs) auto

lemma create_research_request_pending:
  "job_status (fst (create_research_request d now t)) (request_id (snd (create_research_request d now t)))
     = Some PENDING"
proof -
  let ?n = "fresh_id (map request_id (research_requests d))"
  have "find (\<lambda>r. request_id r = ?n) (research_requests d) = None"
    using fresh_id_new [of request_id "research_requests d"]
    by (auto simp: find_None_iff image_iff)
  then show ?thesis
    by (simp add: job_status_def get_research_request_def create_research_request_def
          find_snoc Let_def)
qed

lemma log_writes_keep_requests:
  "research_requests (fst (create_workflow_log d now rid' st s m x)) = research_requests d"
  "research_requests (fst (update_workflow_log d now lid s m x)) = research_requests d"
  "research_requests (fst (create_article d now rid' c)) = research_requests d"
  by (simp_all add: create_workflow_log_def update_workflow_log_def create_article_def Let_def
        split: option.splits)

text \<open>
  C3 (amended). A request is created in status \<open>PENDING\<close>. One run of
  \<open>start_research_workflow\<close> on a pending request sets \<open>PROCESSING\<close> before stage 1, the
  five stages leave the status alone, and the run ends by setting \<open>COMPLETED\<close> when it
  returns and \<open>FAILED\<close> when it raises an exception that leaves the session of the record
  store usable: pending, processing, then completed or failed. No write of a log entry
  or of an article touches a request. \<open>update_status\<close> itself checks no transition: it
  stores the status it is given on any request of the store, a terminal one included.
\<close>

theorem status_transitions:
  "(get_research_request db rid = Some r \<and> status r = PENDING \<longrightarrow>
      job_status db rid = Some PENDING
      \<and> job_status (fst (update_status db (clock env 0) rid PROCESSING None None)) rid
          = Some PROCESSING
      \<and> job_status
          (fst (workflow_steps env
                  (fst (update_status db (clock env 0) rid PROCESSING None None)) rid
                  (topic r) (clock env 0))) rid
          = Some PROCESSING
      \<and> (case snd (start_research_workflow env db rid) of
            Inr fin \<Rightarrow> job_status (fst (start_research_workflow env db rid)) rid = Some COMPLETED
          | Inl e \<Rightarrow> \<not> session_lost e \<longrightarrow>
                       job_status (fst (start_research_workflow env db rid)) rid = Some FAILED))
   \<and> job_status (fst (create_research_request d now t))
        (request_id (snd (create_research_request d now t))) = Some PENDING
   \<and> research_requests (fst (create_workflow_log d now rid' st s m x)) = research_requests d
   \<and> research_requests (fst (update_workflow_log d now lid s m x)) = research_requests d
   \<and> research_requests (fst (create_article d now rid' c)) = research_requests d
   \<and> research_requests (fst (workflow_steps env d rid' t ws)) = research_requests d
   \<and> (get_research_request d rid' \<noteq> None \<longrightarrow>
        job_status (fst (update_status d now rid' new_status res msg)) rid' = Some new_status)"
proof -
  have a: "get_research_request db rid = Some r \<and> status r = PENDING \<longrightarrow>
      job_status db rid = Some PENDING
      \<and> job_status (fst (update_status db (clock env 0) rid PROCESSING None None)) rid
          = Some PROCESSING
      \<and> job_status
          (fst (workflow_steps env
                  (fst (update_status db (clock env 0) rid PROCESSING None None)) rid
                  (topic r) (clock env 0))) rid
          = Some PROCESSING
      \<and> (case snd (start_research_workflow env db rid) of
            Inr fin \<Rightarrow> job_status (fst (start_research_workflow env db rid)) rid = Some COMPLETED
          | Inl e \<Rightarrow> \<not> session_lost e \<longrightarrow>
                       job_status (fst (start_research_workflow env db rid)) rid = Some FAILED)"
  proof
    assume h: "get_research_request db rid = Some r \<and> status r = PENDING"
    let ?d0 = "fst (update_status db (clock env 0) rid PROCESSING None None)"
    let ?w = "workflow_steps env ?d0 rid (topic r) (clock env 0)"
    from h have r: "get_research_request db rid = Some r" by simp
    have 1: "job_status db rid = Some PENDING"
      using h by (simp add: job_status_def)
    have 2: "job_status ?d0 rid = Some PROCESSING"
      by (simp add: job_status_def update_status_lookup [OF r] set_status_fields)
    have 3: "job_status (fst ?w) rid = Some PROCESSING"
      using 2 by (simp add: job_status_def get_research_request_def workflow_steps_requests)
    have 4: "case snd (start_research_workflow env db rid) of
            Inr fin \<Rightarrow> job_status (fst (start_research_workflow env db rid)) rid = Some COMPLETED
          | Inl e \<Rightarrow> \<not> session_lost e \<longrightarrow>
                       job_status (fst (start_research_workflow env db rid)) rid = Some FAILED"
    proof (cases "snd ?w")
      case (Inl e)
      from run_after_raise(3) [OF r Inl] failed_run(1) [OF r Inl] show ?thesis
        by (simp add: job_status_def set_status_fields)
    next
      case (Inr fin)
      from completed_run(1,2) [OF r Inr] show ?thesis
        by (simp add: job_status_def set_status_fields)
    qed
    from 1 2 3 4 show "job_status db rid = Some PENDING
      \<and> job_status ?d0 rid = Some PROCESSING
      \<and> job_status (fst ?w) rid = Some PROCESSING
      \<and> (case snd (start_research_workflow env db rid) of
            Inr fin \<Rightarrow> job_status (fst (start_research_workflow env db rid)) rid = Some COMPLETED
          | Inl e \<Rightarrow> \<not> session_lost e \<longrightarrow>
                       job_status (fst (start_research_workflow env db rid)) rid = Some FAILED)"
      by blast
  qed
  have b: "get_research_request d rid' \<noteq> None \<longrightarrow>
        job_status (fst (update_status d now rid' new_status res msg)) rid' = Some new_status"
    by (auto simp: job_status_def update_status_lookup set_status_fields)
  from a b show ?thesis
    by (simp add: create_research_request_pending log_writes_keep_requests
          workflow_steps_requests)
qed

theorem status_transitions_witness:
  "job_status (one_request ''Quantum Computing'' PENDING) 1 = Some PENDING
   \<and> job_status (fst (update_status (one_request ''Quantum Computing'' PENDING)
                        (clock two_providers 0) 1 PROCESSING None None)) 1 = Some PROCESSING
   \<and> job_status (fst (start_research_workflow two_providers
                        (one_request ''Quantum Computing'' PENDING) 1)) 1 = Some COMPLETED
   \<and> snd (start_research_workflow stage4_raises (one_request ''Quantum Computing'' PENDING) 1)
       = Inl (Exception ''time limit exceeded'')
   \<and> job_status (fst (start_research_workflow stage4_raises
                        (one_request ''Quantum Computing'' PENDING) 1)) 1 = Some FAILED
   \<and> get_research_request finished_store 1 \<noteq> None
   \<and> job_status (fst (update_status finished_store 20 1 PENDING None None)) 1 = Some PENDING"
proof -
  let ?r = "\<lparr>request_id = 1, topic = ''Quantum Computing'', status = PENDING, task_id = None,
             created_at = 0, updated_at = None, completed_at = None, results = None,
             error_message = None\<rparr>"
  have 1: "get_research_request (one_request ''Quantum Computing'' PENDING) 1 = Some ?r"
    by (simp add: get_research_request_def one_request_def)
  have 2: "isl (snd (start_research_workflow two_providers
                        (one_request ''Quantum Computing'' PENDING) 1)) = False"
    by code_simp
  have 3: "snd (start_research_workflow stage4_raises
                  (one_request ''Quantum Computing'' PENDING) 1)
             = Inl (Exception ''time limit exceeded'')"
    by code_simp
  have 4: "get_research_request finished_store 1 \<noteq> None"
    by code_simp
  have 5: "job_status (fst (update_status finished_store 20 1 PENDING None None)) 1 = Some PENDING"
    using status_transitions [where d = finished_store and rid' = 1 and now = 20
        and new_status = PENDING and res = None and msg = None] 4
    by blast
  have 6: "\<not> session_lost (Exception ''time limit exceeded'')"
    by (simp add: session_lost_def)
  have h: "get_research_request (one_request ''Quantum Computing'' PENDING) 1 = Some ?r
             \<and> status ?r = PENDING"
    using 1 by simp
  from 2 obtain fin where fin: "snd (start_research_workflow two_providers
                        (one_request ''Quantum Computing'' PENDING) 1) = Inr fin"
    by (cases "snd (start_research_workflow two_providers
                        (one_request ''Quantum Computing'' PENDING) 1)") simp_all
  from status_transitions [of "one_request ''Quantum Computing'' PENDING" 1 ?r two_providers] h
  have a: "job_status (one_request ''Quantum Computing'' PENDING) 1 = Some PENDING"
    "job_status (fst (update_status (one_request ''Quantum Computing'' PENDING)
                        (clock two_providers 0) 1 PROCESSING None None)) 1 = Some PROCESSING"
    "case snd (start_research_workflow two_providers
                 (one_request ''Quantum Computing'' PENDING) 1) of
       Inr fin \<Rightarrow> job_status (fst (start_research_workflow two_providers
                        (one_request ''Quantum Computing'' PENDING) 1)) 1 = Some COMPLETED
     | Inl e \<Rightarrow> \<not> session_lost e \<longrightarrow>
                  job_status (fst (start_research_workflow two_providers
                        (one_request ''Quantum Computing'' PENDING) 1)) 1 = Some FAILED"
    by blast+
  from a(3) have b: "job_status (fst (start_research_workflow two_providers
                        (one_request ''Quantum Computing'' PENDING) 1)) 1 = Some COMPLETED"
    unfolding fin by (simp only: sum.case)
  from status_transitions [of "one_request ''Quantum Computing'' PENDING" 1 ?r stage4_raises] h
  have "case snd (start_research_workflow stage4_raises
                 (one_request ''Quantum Computing'' PENDING) 1) of
       Inr fin \<Rightarrow> job_status (fst (start_research_workflow stage4_raises
                        (one_request ''Quantum Computing'' PENDING) 1)) 1 = Some COMPLETED
     | Inl e \<Rightarrow> \<not> session_lost e \<longrightarrow>
                  job_status (fst (start_research_workflow stage4_raises
                        (one_request ''Quantum Computing'' PENDING) 1)) 1 = Some FAILED"
    by blast
  then have c: "job_status (fst (start_research_workflow stage4_raises
                        (one_request ''Quantum Computing'' PENDING) 1)) 1 = Some FAILED"
    unfolding 3 using 6 by (simp only: sum.case simp_thms)
  from a(1,2) b 3 c 4 5 show ?thesis by blast
qed

text \<open>
  A completed request, and \<open>update_status\<close> called with \<open>PROCESSING\<close>: the request leaves
  its terminal state. So does the request of a finished run when the workflow runs on it
  once more and stage 4 meets an exception: it goes from completed to failed.
\<close>

theorem status_transitions_terminal_counterexample:
  "job_status (one_request ''Quantum Computing'' COMPLETED) 1 = Some COMPLETED
   \<and> job_status (fst (update_status (one_request ''Quantum Computing'' COMPLETED) 20 1
                        PROCESSING None None)) 1 = Some PROCESSING
   \<and> job_status finished_store 1 = Some COMPLETED
   \<and> job_status (fst (start_research_workflow stage4_raises finished_store 1)) 1
       = Some FAILED"
proof -
  have 1: "job_status (one_request ''Quantum Computing'' COMPLETED) 1 = Some COMPLETED
   \<and> job_status (fst (update_status (one_request ''Quantum Computing'' COMPLETED) 20 1
                        PROCESSING None None)) 1 = Some PROCESSING"
    by (simp add: job_status_def get_research_request_def update_status_def one_request_def
          set_status_def)
  have 2: "job_status finished_store 1 = Some COMPLETED"
    by code_simp
  have 3: "job_status (fst (start_research_workflow stage4_raises finished_store 1)) 1
       = Some FAILED"
    by code_simp
  from 1 2 3 show ?thesis by simp
qed

end
